theory Spec2Isabelle
  imports Main "HOL-Library.Sublist"
begin

section \<open>Python strings\<close>

text \<open>
  A Python \<^verbatim>\<open>str\<close> is a sequence of Unicode code points, so a string is a list of
  naturals. ASCII literals of the source are written \<open>lit ''...''\<close>.
\<close>

type_synonym pystr = "nat list"

definition lit :: "string \<Rightarrow> pystr" where
  "lit s = map of_char s"

text \<open>
  \<^verbatim>\<open>str.isspace\<close> on one code point: the code points that \<^verbatim>\<open>str.strip()\<close> removes.
\<close>

definition py_isspace :: "nat \<Rightarrow> bool" where
  "py_isspace c \<longleftrightarrow>
     (0x09 \<le> c \<and> c \<le> 0x0D) \<or> (0x1C \<le> c \<and> c \<le> 0x20) \<or> c = 0x85 \<or> c = 0xA0 \<or>
     c = 0x1680 \<or> (0x2000 \<le> c \<and> c \<le> 0x200A) \<or> c = 0x2028 \<or> c = 0x2029 \<or>
     c = 0x202F \<or> c = 0x205F \<or> c = 0x3000"

text \<open>\<^verbatim>\<open>s.strip()\<close>: leading and trailing whitespace removed.\<close>

definition py_strip :: "pystr \<Rightarrow> pystr" where
  "py_strip s = rev (dropWhile py_isspace (rev (dropWhile py_isspace s)))"

text \<open>\<^verbatim>\<open>s.startswith(p)\<close>.\<close>

definition startswith :: "pystr \<Rightarrow> pystr \<Rightarrow> bool" where
  "startswith s p = prefix p s"

section \<open>The language-skip heuristic\<close>

text \<open>
  \<^verbatim>\<open>should_skip_translation\<close> of \<^verbatim>\<open>javsp/web/translate.py\<close>. The classifiers
  \<^verbatim>\<open>is_chinese\<close> and \<^verbatim>\<open>is_japanese\<close> are imported from \<^verbatim>\<open>javsp.func\<close>; they
  are parameters here.
\<close>

definition should_skip_translation ::
    "(pystr \<Rightarrow> bool) \<Rightarrow> (pystr \<Rightarrow> bool) \<Rightarrow> pystr \<Rightarrow> pystr \<Rightarrow> bool" where
  "should_skip_translation is_chinese is_japanese text target_lang =
     (if text = [] \<or> length (py_strip text) = 0 then True
      else if startswith target_lang (lit ''zh'') \<and> is_chinese text \<and> \<not> is_japanese text then True
      else False)"

text \<open>
  Modelled from the spec: \<^verbatim>\<open>javsp.func.is_chinese\<close> and \<^verbatim>\<open>javsp.func.is_japanese\<close>
  are not part of the sources at hand. The spec speaks of text "classified as Chinese
  script" and of "text containing kana"; these two sample classifiers look for a CJK
  unified ideograph and for a hiragana or katakana code point.
\<close>

definition is_chinese_han :: "pystr \<Rightarrow> bool" where
  "is_chinese_han text = list_ex (\<lambda>c. 0x4E00 \<le> c \<and> c \<le> 0x9FFF) text"

definition is_japanese_kana :: "pystr \<Rightarrow> bool" where
  "is_japanese_kana text = list_ex (\<lambda>c. 0x3040 \<le> c \<and> c \<le> 0x30FF) text"

section \<open>Entity protection\<close>

text \<open>
  \<^verbatim>\<open>s.replace(old, new)\<close>: the occurrences of \<open>old\<close> are found from the left and do
  not overlap; the text that replaces one is not searched again. With an empty \<open>old\<close>,
  Python puts \<open>new\<close> before every element and at the end.
\<close>

function str_replace :: "'a list \<Rightarrow> 'a list \<Rightarrow> 'a list \<Rightarrow> 'a list" where
  "str_replace s old new =
     (if old = [] then new @ concat (map (\<lambda>c. c # new) s)
      else if s = [] then []
      else if prefix old s then new @ str_replace (drop (length old) s) old new
      else hd s # str_replace (tl s) old new)"
  by pat_completeness auto
termination
  by (relation "measure (\<lambda>(s, old, new). length s)") auto

declare str_replace.simps [simp del]

text \<open>The token \<^verbatim>\<open>f"[ACTRESS:{name}]"\<close>.\<close>

definition actress_token :: "pystr \<Rightarrow> pystr" where
  "actress_token name = lit ''[ACTRESS:'' @ name @ lit '']''"

text \<open>
  The two loops of \<^verbatim>\<open>translate_with_openai_compatible\<close> over the names: before the call
  every name is replaced by its token, after the call every token by its name, both in
  the order of the list.
\<close>

fun protect_names :: "pystr \<Rightarrow> pystr list \<Rightarrow> pystr" where
  "protect_names protected_text [] = protected_text"
| "protect_names protected_text (name # actress) =
     protect_names (str_replace protected_text name (actress_token name)) actress"

fun restore_names :: "pystr \<Rightarrow> pystr list \<Rightarrow> pystr" where
  "restore_names translated [] = translated"
| "restore_names translated (name # actress) =
     restore_names (str_replace translated (actress_token name) name) actress"

text \<open>
  For the proofs, a protected text is read as a sequence of pieces: a code point of the
  original text, or the token of a name. \<open>flat\<close> is the string the code holds,
  \<open>raw\<close> the text with every token replaced by its name.
\<close>

type_synonym piece = "nat + pystr"

definition flat :: "piece list \<Rightarrow> pystr" where
  "flat st = concat (map (case_sum (\<lambda>c. [c]) actress_token) st)"

definition raw :: "piece list \<Rightarrow> pystr" where
  "raw st = concat (map (case_sum (\<lambda>c. [c]) (\<lambda>e. e)) st)"



section \<open>Values, exceptions and the Python operations on JSON values\<close>

datatype json = JNull | JBool bool | JInt int | JStr pystr | JArr "json list"
  | JObj "(pystr \<times> json) list"

datatype exn = ImportError | APIConnectionError pystr | OtherException pystr
  | RequestException pystr | JSONDecodeError | KeyError pystr | TypeError | AttributeError

definition exn_bind :: "exn + 'a \<Rightarrow> ('a \<Rightarrow> exn + 'b) \<Rightarrow> exn + 'b" where
  "exn_bind m f = (case m of Inl e \<Rightarrow> Inl e | Inr x \<Rightarrow> f x)"

fun py_in :: "pystr \<Rightarrow> json \<Rightarrow> exn + bool" where
  "py_in k (JObj kvs) = Inr (k \<in> set (map fst kvs))"
| "py_in k (JArr xs) = Inr (JStr k \<in> set xs)"
| "py_in k (JStr s) = Inr (sublist k s)"
| "py_in k _ = Inl TypeError"

fun py_getitem :: "json \<Rightarrow> pystr \<Rightarrow> exn + json" where
  "py_getitem (JObj kvs) k = (case map_of kvs k of None \<Rightarrow> Inl (KeyError k) | Some v \<Rightarrow> Inr v)"
| "py_getitem _ k = Inl TypeError"

fun py_iter :: "json \<Rightarrow> exn + json list" where
  "py_iter (JArr xs) = Inr xs"
| "py_iter (JObj kvs) = Inr (map (\<lambda>kv. JStr (fst kv)) kvs)"
| "py_iter (JStr s) = Inr (map (\<lambda>c. JStr [c]) s)"
| "py_iter _ = Inl TypeError"

fun py_items :: "pystr \<Rightarrow> json list \<Rightarrow> exn + json list" where
  "py_items k [] = Inr []"
| "py_items k (i # xs) =
     exn_bind (py_getitem i k) (\<lambda>v. exn_bind (py_items k xs) (\<lambda>vs. Inr (v # vs)))"

fun py_join :: "json list \<Rightarrow> exn + pystr" where
  "py_join [] = Inr []"
| "py_join (JStr s # xs) = exn_bind (py_join xs) (\<lambda>r. Inr (s @ r))"
| "py_join (_ # xs) = Inl TypeError"

fun py_get :: "json \<Rightarrow> pystr \<Rightarrow> json \<Rightarrow> exn + json" where
  "py_get (JObj kvs) k d = Inr (case map_of kvs k of None \<Rightarrow> d | Some v \<Rightarrow> v)"
| "py_get _ k d = Inl AttributeError"

fun digits :: "nat \<Rightarrow> pystr" where
  "digits n = (if n < 10 then [48 + n] else digits (n div 10) @ [48 + n mod 10])"

declare digits.simps [simp del]

definition str_int :: "int \<Rightarrow> pystr" where
  "str_int i = (if i < 0 then 45 # digits (nat (- i)) else digits (nat i))"

definition py_str :: "(json \<Rightarrow> pystr) \<Rightarrow> json \<Rightarrow> pystr" where
  "py_str repr_container v =
     (case v of JStr s \<Rightarrow> s | JInt i \<Rightarrow> str_int i | JNull \<Rightarrow> lit ''None''
      | JBool b \<Rightarrow> (if b then lit ''True'' else lit ''False'') | _ \<Rightarrow> repr_container v)"

section \<open>Configuration, environment and state\<close>

record provider =
  base_url :: pystr
  api_key :: pystr
  model :: pystr
  name :: pystr

record translator =
  providers :: "provider list"
  fields_title :: bool
  fields_plot :: bool
  target_language :: pystr
  title_mandatory :: bool
  auto_detect_language :: bool

record chat_request =
  client_api_key :: pystr
  client_base_url :: pystr
  request_model :: pystr
  system_content :: pystr
  user_content :: pystr
  temperature :: nat
  max_tokens :: nat

record response =
  status_code :: int
  reason :: pystr
  json_body :: "json option"

datatype client_result = ClientTrans pystr | ClientError int pystr

datatype outcome = Translated pystr pystr "(json list \<times> json list) option" | Failed pystr

datatype log_line = Throttled int pystr int | AllProvidersFailed "pystr list" | TitleFailed pystr

record env =
  cfg_translator :: translator
  openai_importable :: bool
  openai_client :: "provider \<Rightarrow> exn option"
  chat_completions_create :: "nat \<Rightarrow> chat_request \<Rightarrow> exn + pystr option list"
  requests_get :: "nat \<Rightarrow> pystr \<Rightarrow> exn + response"
  random_source :: "nat \<Rightarrow> nat"
  repr_exn :: "exn \<Rightarrow> pystr"
  repr_container :: "json \<Rightarrow> pystr"
  is_chinese :: "pystr \<Rightarrow> bool"
  is_japanese :: "pystr \<Rightarrow> bool"

record world =
  google_trans_wait :: int
  client_log :: "(provider \<times> client_result) list"
  chat_sent :: "chat_request list"
  google_calls :: "(pystr \<times> pystr) list"
  http_sent :: "pystr list"
  rand_drawn :: nat
  slept :: "int list"
  warnings :: "log_line list"

definition initial_world :: world where
  "initial_world = \<lparr>google_trans_wait = 60, client_log = [], chat_sent = [], google_calls = [],
     http_sent = [], rand_drawn = 0, slept = [], warnings = []\<rparr>"

definition randint :: "env \<Rightarrow> nat \<Rightarrow> int \<Rightarrow> int \<Rightarrow> int" where
  "randint E k a b = a + int (random_source E k mod nat (b - a + 1))"

text \<open>The effects of the library calls on the state.\<close>

definition logger_warning :: "log_line \<Rightarrow> world \<Rightarrow> world" where
  "logger_warning line w = w\<lparr>warnings := warnings w @ [line]\<rparr>"

definition time_sleep :: "int \<Rightarrow> world \<Rightarrow> world" where
  "time_sleep seconds w = w\<lparr>slept := slept w @ [seconds]\<rparr>"

definition http_get :: "env \<Rightarrow> pystr \<Rightarrow> world \<Rightarrow> (exn + response) \<times> world" where
  "http_get E url w =
     (requests_get E (length (http_sent w)) url, w\<lparr>http_sent := http_sent w @ [url]\<rparr>)"

definition chat_create :: "env \<Rightarrow> chat_request \<Rightarrow> world \<Rightarrow> (exn + pystr option list) \<times> world" where
  "chat_create E request w =
     (chat_completions_create E (length (chat_sent w)) request,
      w\<lparr>chat_sent := chat_sent w @ [request]\<rparr>)"

definition grow_wait :: "env \<Rightarrow> world \<Rightarrow> world" where
  "grow_wait E w =
     w\<lparr>google_trans_wait := google_trans_wait w + randint E (rand_drawn w) 60 90,
       rand_drawn := Suc (rand_drawn w)\<rparr>"

section \<open>The compatible-provider client\<close>

definition lang_map :: "(pystr \<times> pystr) list" where
  "lang_map =
     [(lit ''zh_CN'', lit ''simplified Chinese''),
      (lit ''zh_TW'', lit ''traditional Chinese''),
      (lit ''zh-Hans'', lit ''simplified Chinese''),
      (lit ''zh-Hant'', lit ''traditional Chinese''),
      (lit ''en'', lit ''English''),
      (lit ''ja'', lit ''Japanese''),
      (lit ''ko'', lit ''Korean'')]"

definition system_prompt :: "pystr \<Rightarrow> pystr \<Rightarrow> pystr" where
  "system_prompt target_lang_name target_lang =
     lit ''Translate the following Japanese paragraph into '' @ target_lang_name @ lit '' (''
     @ target_lang @ lit ''), while leaving non-Japanese text, names, or text that does not look like Japanese untranslated. Reply with the translated text only, do not add any text that is not in the original content.''"

definition translate_with_openai_compatible ::
    "env \<Rightarrow> pystr \<Rightarrow> provider \<Rightarrow> pystr list option \<Rightarrow> pystr \<Rightarrow> world \<Rightarrow> client_result \<times> world" where
  "translate_with_openai_compatible E texts provider actress target_lang w =
     (if \<not> openai_importable E then (ClientError (- 10) (lit ''openai package not installed''), w)
      else
        let actress = (case actress of None \<Rightarrow> [] | Some names \<Rightarrow> names);
            target_lang_name = (case map_of lang_map target_lang of None \<Rightarrow> target_lang | Some n \<Rightarrow> n)
        in case openai_client E provider of
             Some e \<Rightarrow> (ClientError (- 11) (repr_exn E e), w)
           | None \<Rightarrow>
               let protected_text = protect_names texts actress;
                   request = \<lparr>client_api_key = api_key provider, client_base_url = base_url provider,
                              request_model = model provider,
                              system_content = system_prompt target_lang_name target_lang,
                              user_content = protected_text, temperature = 0, max_tokens = 1024\<rparr>
               in case chat_create E request w of
                    (Inl e, w') \<Rightarrow> (ClientError (- 11) (repr_exn E e), w')
                  | (Inr choices, w') \<Rightarrow>
                      (case choices of
                         [] \<Rightarrow> (ClientError (- 12) (lit ''Empty response from API''), w')
                       | None # _ \<Rightarrow> (ClientError (- 12) (lit ''Empty response from API''), w')
                       | Some content # _ \<Rightarrow>
                           if content = [] then (ClientError (- 12) (lit ''Empty response from API''), w')
                           else (ClientTrans (restore_names (py_strip content) actress), w')))"

section \<open>The public fallback client\<close>

definition google_url :: "pystr \<Rightarrow> pystr \<Rightarrow> pystr" where
  "google_url texts to =
     lit ''https://translate.google.com.hk/translate_a/single?client=gtx&dt=t&dj=1&ie=UTF-8&sl=auto&tl=''
     @ to @ lit ''&q='' @ texts"

partial_function (option) google_trans_retry ::
    "env \<Rightarrow> pystr \<Rightarrow> response \<Rightarrow> world \<Rightarrow> ((exn + response) \<times> world) option" where
  "google_trans_retry E url r w =
     (if status_code r = 429 then
        (case http_get E url
                (time_sleep (google_trans_wait w)
                   (logger_warning (Throttled (status_code r) (reason r) (google_trans_wait w)) w)) of
           (Inl e, w') \<Rightarrow> Some (Inl e, w')
         | (Inr r', w') \<Rightarrow>
             google_trans_retry E url r' (if status_code r' = 429 then grow_wait E w' else w'))
      else Some (Inr r, w))"

definition google_trans :: "env \<Rightarrow> pystr \<Rightarrow> pystr \<Rightarrow> world \<Rightarrow> ((exn + json) \<times> world) option" where
  "google_trans E texts to w =
     (let url = google_url texts to
      in case http_get E url (w\<lparr>google_calls := google_calls w @ [(texts, to)]\<rparr>) of
           (Inl e, w1) \<Rightarrow> Some (Inl e, w1)
         | (Inr r0, w1) \<Rightarrow>
             (case google_trans_retry E url r0 w1 of
                None \<Rightarrow> None
              | Some (Inl e, w2) \<Rightarrow> Some (Inl e, w2)
              | Some (Inr r, w2) \<Rightarrow>
                  if status_code r = 200 then
                    (case json_body r of
                       None \<Rightarrow> Some (Inl JSONDecodeError, w2)
                     | Some result \<Rightarrow> Some (Inr result, time_sleep 4 w2))
                  else
                    Some (Inr (JObj [(lit ''error_code'', JInt (status_code r)),
                                     (lit ''error_msg'', JStr (reason r))]),
                          time_sleep 4 w2)))"

text \<open>A run of the fallback client: a sequence of \<^verbatim>\<open>google_trans\<close> calls, one after the other.\<close>

fun google_trans_run ::
    "env \<Rightarrow> (pystr \<times> pystr) list \<Rightarrow> world \<Rightarrow> ((exn + json) list \<times> world) option" where
  "google_trans_run E [] w = Some ([], w)"
| "google_trans_run E ((texts, to) # calls) w =
     (case google_trans E texts to w of
        None \<Rightarrow> None
      | Some (returned, w1) \<Rightarrow>
          (case google_trans_run E calls w1 of
             None \<Rightarrow> None
           | Some (rest, w2) \<Rightarrow> Some (returned # rest, w2)))"

section \<open>The provider chain\<close>

definition provider_label :: "provider \<Rightarrow> pystr" where
  "provider_label provider = (if name provider \<noteq> [] then name provider else model provider)"

fun try_providers ::
    "env \<Rightarrow> pystr \<Rightarrow> pystr list \<Rightarrow> pystr \<Rightarrow> provider list \<Rightarrow> pystr list \<Rightarrow> world
     \<Rightarrow> (outcome + pystr list) \<times> world" where
  "try_providers E texts actress target_lang [] errors w = (Inr errors, w)"
| "try_providers E texts actress target_lang (provider # rest) errors w =
     (let provider_name = provider_label provider;
          (result, w') = translate_with_openai_compatible E texts provider (Some actress) target_lang w;
          w'' = w'\<lparr>client_log := client_log w' @ [(provider, result)]\<rparr>
      in case result of
           ClientTrans t \<Rightarrow> (Inl (Translated t provider_name None), w'')
         | ClientError code error_msg \<Rightarrow>
             try_providers E texts actress target_lang rest
               (errors @ [provider_name @ lit '': '' @ error_msg]) w'')"

definition fallback_result :: "env \<Rightarrow> json \<Rightarrow> exn + outcome" where
  "fallback_result E result =
     exn_bind (py_in (lit ''sentences'') result) (\<lambda>present.
       if present then
         exn_bind (py_getitem result (lit ''sentences'')) (\<lambda>sentences.
         exn_bind (py_iter sentences) (\<lambda>items.
         exn_bind (py_items (lit ''orig'') items) (\<lambda>orig_break.
         exn_bind (py_items (lit ''trans'') items) (\<lambda>trans_break.
         exn_bind (py_join trans_break) (\<lambda>trans.
           Inr (Translated trans (lit ''Google'') (Some (orig_break, trans_break))))))))
       else
         exn_bind (py_get result (lit ''error_code'') (JStr (lit ''unknown''))) (\<lambda>code.
         exn_bind (py_get result (lit ''error_msg'') (JStr (lit ''unknown error''))) (\<lambda>msg.
           Inr (Failed (py_str (repr_container E) code @ lit '': '' @ py_str (repr_container E) msg)))))"

definition fallback_outcome :: "env \<Rightarrow> exn + json \<Rightarrow> outcome" where
  "fallback_outcome E returned =
     (case exn_bind returned (fallback_result E) of
        Inl e \<Rightarrow> Failed (lit ''Google: '' @ repr_exn E e)
      | Inr out \<Rightarrow> out)"

definition translate_with_providers ::
    "env \<Rightarrow> pystr \<Rightarrow> pystr list option \<Rightarrow> pystr \<Rightarrow> world \<Rightarrow> (outcome \<times> world) option" where
  "translate_with_providers E texts actress target_lang w =
     (let actress = (case actress of None \<Rightarrow> [] | Some names \<Rightarrow> names);
          providers = providers (cfg_translator E);
          (found, w1) =
            (if providers \<noteq> [] then
               (case try_providers E texts actress target_lang providers [] w of
                  (Inl result, w') \<Rightarrow> (Some result, w')
                | (Inr errors, w') \<Rightarrow> (None, logger_warning (AllProvidersFailed errors) w'))
             else (None, w))
      in case found of
           Some result \<Rightarrow> Some (result, w1)
         | None \<Rightarrow>
             (case google_trans E texts target_lang w1 of
                None \<Rightarrow> None
              | Some (returned, w2) \<Rightarrow> Some (fallback_outcome E returned, w2)))"

section \<open>The orchestrator\<close>

record movie_info =
  title :: "pystr option"
  plot :: "pystr option"
  actress :: "pystr list option"
  ori_title :: "pystr option"
  ori_title_break :: "json list option"
  title_break :: "json list option"
  ori_plot :: "pystr option"

definition translate_title :: "env \<Rightarrow> movie_info \<Rightarrow> world \<Rightarrow> (movie_info \<times> world) option" where
  "translate_title E info w =
     (let target_lang = target_language (cfg_translator E);
          auto_detect = auto_detect_language (cfg_translator E)
      in case title info of
           None \<Rightarrow> Some (info, w)
         | Some t \<Rightarrow>
             if t \<noteq> [] \<and> fields_title (cfg_translator E) \<and> ori_title info = None then
               if auto_detect \<and> should_skip_translation (is_chinese E) (is_japanese E) t target_lang
               then Some (info, w)
               else
                 (case translate_with_providers E t (actress info) target_lang w of
                    None \<Rightarrow> None
                  | Some (Translated translated provider_name breaks, w') \<Rightarrow>
                      Some ((case breaks of
                               None \<Rightarrow> info\<lparr>ori_title := Some t, title := Some translated\<rparr>
                             | Some (orig_break, trans_break) \<Rightarrow>
                                 info\<lparr>ori_title := Some t, title := Some translated,
                                      ori_title_break := Some orig_break,
                                      title_break := Some trans_break\<rparr>), w')
                  | Some (Failed error_msg, w') \<Rightarrow>
                      Some (info,
                            if title_mandatory (cfg_translator E)
                            then logger_warning (TitleFailed error_msg) w'
                            else w'))
             else Some (info, w))"

definition translate_plot :: "env \<Rightarrow> movie_info \<Rightarrow> world \<Rightarrow> (movie_info \<times> world) option" where
  "translate_plot E info w =
     (let target_lang = target_language (cfg_translator E);
          auto_detect = auto_detect_language (cfg_translator E)
      in case plot info of
           None \<Rightarrow> Some (info, w)
         | Some p \<Rightarrow>
             if p \<noteq> [] \<and> fields_plot (cfg_translator E) then
               if auto_detect \<and> should_skip_translation (is_chinese E) (is_japanese E) p target_lang
               then Some (info, w)
               else
                 (case translate_with_providers E p (actress info) target_lang w of
                    None \<Rightarrow> None
                  | Some (Translated translated provider_name breaks, w') \<Rightarrow>
                      Some (info\<lparr>ori_plot := Some p, plot := Some translated\<rparr>, w')
                  | Some (Failed error_msg, w') \<Rightarrow> Some (info, w'))
             else Some (info, w))"

definition translate_movie_info :: "env \<Rightarrow> movie_info \<Rightarrow> world \<Rightarrow> (bool \<times> movie_info \<times> world) option" where
  "translate_movie_info E info w =
     (case translate_title E info w of
        None \<Rightarrow> None
      | Some (info1, w1) \<Rightarrow>
          (case translate_plot E info1 w1 of
             None \<Rightarrow> None
           | Some (info2, w2) \<Rightarrow> Some (True, info2, w2)))"

section \<open>Sample environments\<close>

text \<open>
  A concrete environment for running the definitions: the client library is installed,
  every client can be built, and the chat endpoint and the HTTP endpoint answer as the
  two given scripts say.
\<close>

definition sample_repr :: "exn \<Rightarrow> pystr" where
  "sample_repr e =
     (case e of
        ImportError \<Rightarrow> lit ''ImportError()''
      | APIConnectionError m \<Rightarrow> lit ''APIConnectionError('' @ m @ lit '')''
      | OtherException m \<Rightarrow> lit ''Exception('' @ m @ lit '')''
      | RequestException m \<Rightarrow> lit ''RequestException('' @ m @ lit '')''
      | JSONDecodeError \<Rightarrow> lit ''JSONDecodeError()''
      | KeyError k \<Rightarrow> lit ''KeyError('' @ k @ lit '')''
      | TypeError \<Rightarrow> lit ''TypeError()''
      | AttributeError \<Rightarrow> lit ''AttributeError()'')"

definition sample_env ::
    "translator \<Rightarrow> (nat \<Rightarrow> chat_request \<Rightarrow> exn + pystr option list)
     \<Rightarrow> (nat \<Rightarrow> pystr \<Rightarrow> exn + response) \<Rightarrow> env" where
  "sample_env cfg chat http =
     \<lparr>cfg_translator = cfg, openai_importable = True, openai_client = (\<lambda>p. None),
      chat_completions_create = chat, requests_get = http, random_source = (\<lambda>k. 7 * k + 3),
      repr_exn = sample_repr, repr_container = (\<lambda>v. lit ''<container>''),
      is_chinese = is_chinese_han, is_japanese = is_japanese_kana\<rparr>"

definition sample_provider :: "string \<Rightarrow> string \<Rightarrow> provider" where
  "sample_provider name_text model_text =
     \<lparr>base_url = lit ''https://api.example.com/v1'', api_key = lit ''sk-test'',
      model = lit model_text, name = lit name_text\<rparr>"

definition sample_cfg :: "provider list \<Rightarrow> translator" where
  "sample_cfg ps =
     \<lparr>providers = ps, fields_title = True, fields_plot = True, target_language = lit ''zh_CN'',
      title_mandatory = True, auto_detect_language = True\<rparr>"

definition throttled_response :: response where
  "throttled_response = \<lparr>status_code = 429, reason = lit ''Too Many Requests'', json_body = None\<rparr>"

definition ok_response :: "json \<Rightarrow> response" where
  "ok_response body = \<lparr>status_code = 200, reason = lit ''OK'', json_body = Some body\<rparr>"

definition error_response :: response where
  "error_response = \<lparr>status_code = 500, reason = lit ''Internal Server Error'', json_body = None\<rparr>"

text \<open>The reply of the fallback endpoint with one sentence.\<close>

definition one_sentence :: "pystr \<Rightarrow> pystr \<Rightarrow> json" where
  "one_sentence orig translated =
     JObj [(lit ''sentences'', JArr [JObj [(lit ''trans'', JStr translated), (lit ''orig'', JStr orig)]])]"

section \<open>Predicates of the proofs about the fallback client\<close>

text \<open>
  What one run of the retry loop establishes: it made \<open>m\<close> requests, all to the same URL;
  all but the last were answered with status 429, and each of those but the first from
  the loop added one random increment between 60 and 90 to the wait.
\<close>

definition retry_post :: "env \<Rightarrow> pystr \<Rightarrow> response \<Rightarrow> world \<Rightarrow> (exn + response) \<times> world \<Rightarrow> bool" where
  "retry_post E url r w y =
     (\<exists>m. http_sent (snd y) = http_sent w @ replicate m url
         \<and> rand_drawn (snd y) = rand_drawn w + (m - 1)
         \<and> (status_code r = 429 \<longrightarrow> 0 < m)
         \<and> (status_code r \<noteq> 429 \<longrightarrow> y = (Inr r, w))
         \<and> google_trans_wait w + 60 * int (m - 1) \<le> google_trans_wait (snd y)
         \<and> google_trans_wait (snd y) \<le> google_trans_wait w + 90 * int (m - 1)
         \<and> (\<forall>i < m - 1. \<exists>r'. requests_get E (length (http_sent w) + i) url = Inr r' \<and> status_code r' = 429)
         \<and> (case fst y of Inl e \<Rightarrow> 0 < m \<and> requests_get E (length (http_sent w) + (m - 1)) url = Inl e
             | Inr r' \<Rightarrow> status_code r' \<noteq> 429
                 \<and> (0 < m \<longrightarrow> requests_get E (length (http_sent w) + (m - 1)) url = Inr r'))
         \<and> client_log (snd y) = client_log w \<and> chat_sent (snd y) = chat_sent w
         \<and> google_calls (snd y) = google_calls w)"

text \<open>
  The endpoint answers request number \<open>m\<close> for \<open>url\<close> with something other than status 429;
  it does not throttle forever when every request number is followed by such a request.
\<close>

definition unthrottled :: "env \<Rightarrow> pystr \<Rightarrow> nat \<Rightarrow> bool" where
  "unthrottled E url m = (case requests_get E m url of Inl e \<Rightarrow> True | Inr r \<Rightarrow> status_code r \<noteq> 429)"

definition answers_eventually :: "env \<Rightarrow> bool" where
  "answers_eventually E \<longleftrightarrow> (\<forall>url h. \<exists>m \<ge> h. unthrottled E url m)"

text \<open>The state after the warning, the sleep and the request of one round of the retry loop.\<close>

definition after_retry_get :: "pystr \<Rightarrow> response \<Rightarrow> world \<Rightarrow> world" where
  "after_retry_get url r w =
     (time_sleep (google_trans_wait w)
        (logger_warning (Throttled (status_code r) (reason r) (google_trans_wait w)) w))
     \<lparr>http_sent := http_sent w @ [url]\<rparr>"

text \<open>An endpoint that throttles the first three requests and then answers.\<close>

definition three_then_ok :: "nat \<Rightarrow> pystr \<Rightarrow> exn + response" where
  "three_then_ok k url =
     (if k < 3 then Inr throttled_response
      else Inr (ok_response (one_sentence [0x3053, 0x3093, 0x306B, 0x3061, 0x306F] [0x4F60, 0x597D])))"

section \<open>Terms of the statements about the compatible-provider client\<close>

text \<open>
  The request that \<^verbatim>\<open>translate_with_openai_compatible\<close> sends, the test of line 177 of
  the source for an empty or missing payload, and the \<^verbatim>\<open>actress\<close> argument with
  \<^verbatim>\<open>None\<close> read as the empty list.
\<close>

definition client_request :: "pystr \<Rightarrow> provider \<Rightarrow> pystr list \<Rightarrow> pystr \<Rightarrow> chat_request" where
  "client_request texts provider names target_lang =
     \<lparr>client_api_key = api_key provider, client_base_url = base_url provider,
      request_model = model provider,
      system_content =
        system_prompt (case map_of lang_map target_lang of None \<Rightarrow> target_lang | Some n \<Rightarrow> n) target_lang,
      user_content = protect_names texts names, temperature = 0, max_tokens = 1024\<rparr>"

fun empty_payload :: "pystr option list \<Rightarrow> bool" where
  "empty_payload [] = True"
| "empty_payload (None # rest) = True"
| "empty_payload (Some content # rest) = (content = [])"

definition names_of :: "pystr list option \<Rightarrow> pystr list" where
  "names_of given = (case given of None \<Rightarrow> [] | Some names \<Rightarrow> names)"

section \<open>Terms of the statements about the provider chain\<close>

text \<open>
  A logged client result that is an error, and the entry that the loop appends to its
  \<^verbatim>\<open>errors\<close> list for it: \<^verbatim>\<open>f"{provider_name}: {error_msg}"\<close>.
\<close>

fun is_client_error :: "client_result \<Rightarrow> bool" where
  "is_client_error (ClientError code error_msg) = True"
| "is_client_error (ClientTrans t) = False"

fun error_entry :: "provider \<times> client_result \<Rightarrow> pystr" where
  "error_entry (provider, ClientError code error_msg) = provider_label provider @ lit '': '' @ error_msg"
| "error_entry (provider, ClientTrans t) = provider_label provider @ lit '': ''"

text \<open>
  What the loop over the providers establishes: the clients it called are a prefix of
  the list, in order and one call each; every request it sent carries the protected
  text; it never touches the fallback; it ends at the first success, or with one error
  entry per provider.
\<close>

definition loop_post ::
    "pystr \<Rightarrow> pystr list \<Rightarrow> pystr \<Rightarrow> provider list \<Rightarrow> pystr list \<Rightarrow> world
     \<Rightarrow> (outcome + pystr list) \<times> world \<Rightarrow> bool" where
  "loop_post texts names target_lang ps errors w y =
     (\<exists>new sent.
        client_log (snd y) = client_log w @ new \<and> prefix (map fst new) ps
        \<and> chat_sent (snd y) = chat_sent w @ sent
        \<and> (\<forall>q \<in> set sent. user_content q = protect_names texts names)
        \<and> length sent \<le> length new
        \<and> google_calls (snd y) = google_calls w \<and> http_sent (snd y) = http_sent w
        \<and> google_trans_wait (snd y) = google_trans_wait w \<and> warnings (snd y) = warnings w
        \<and> (case fst y of
              Inl out \<Rightarrow> new \<noteq> [] \<and> list_all (\<lambda>x. is_client_error (snd x)) (butlast new)
                 \<and> (\<exists>t. snd (last new) = ClientTrans t
                        \<and> out = Translated t (provider_label (fst (last new))) None)
            | Inr errs \<Rightarrow> map fst new = ps \<and> list_all (\<lambda>x. is_client_error (snd x)) new
                 \<and> errs = errors @ map error_entry new))"

section \<open>Sample runs\<close>

text \<open>
  Endpoints that give the same reply to every request; a chat endpoint whose first reply
  has no choices, whose second request fails in transport and whose third reply is a
  translation; the three providers that meet it; an environment in which the only
  provider fails and the fallback answers with status 500, and the state in which the
  chain leaves it; an environment whose only provider has an empty name.
\<close>

definition chat_always :: "exn + pystr option list \<Rightarrow> nat \<Rightarrow> chat_request \<Rightarrow> exn + pystr option list" where
  "chat_always reply k q = reply"

definition http_always :: "exn + response \<Rightarrow> nat \<Rightarrow> pystr \<Rightarrow> exn + response" where
  "http_always reply k url = reply"



definition failing_env :: env where
  "failing_env = sample_env (sample_cfg [sample_provider ''first'' ''m1''])
     (chat_always (Inl (APIConnectionError (lit ''timeout'')))) (http_always (Inr error_response))"

definition failed_world :: world where
  "failed_world = initial_world
     \<lparr>client_log := [(sample_provider ''first'' ''m1'',
                      ClientError (- 11) (lit ''APIConnectionError(timeout)''))],
      chat_sent := [client_request (lit ''Hana in Tokyo'') (sample_provider ''first'' ''m1'')
                      [lit ''Hana''] (lit ''zh_CN'')],
      google_calls := [(lit ''Hana in Tokyo'', lit ''zh_CN'')],
      http_sent := [google_url (lit ''Hana in Tokyo'') (lit ''zh_CN'')],
      slept := [4],
      warnings := [AllProvidersFailed [lit ''first: APIConnectionError(timeout)'']]\<rparr>"

definition unnamed_env :: env where
  "unnamed_env = sample_env (sample_cfg [sample_provider [] ''gpt-4o''])
     (chat_always (Inr [Some (lit ''Hello'')])) (http_always (Inr error_response))"

section \<open>Terms of the statements about the fallback's reply\<close>







section \<open>Terms of the statements about the orchestrator\<close>

text \<open>
  The conditions under which \<^verbatim>\<open>translate_movie_info\<close> calls the chain for the title
  and for the plot: the field is set and non-empty, its translation is switched on, the
  language check does not skip it and, for the title only, no original title has been
  archived yet.
\<close>

definition title_attempted :: "env \<Rightarrow> movie_info \<Rightarrow> bool" where
  "title_attempted E info =
     (case title info of
        None \<Rightarrow> False
      | Some t \<Rightarrow>
          t \<noteq> [] \<and> fields_title (cfg_translator E) \<and> ori_title info = None
          \<and> \<not> (auto_detect_language (cfg_translator E)
                \<and> should_skip_translation (is_chinese E) (is_japanese E) t
                      (target_language (cfg_translator E))))"

definition plot_attempted :: "env \<Rightarrow> movie_info \<Rightarrow> bool" where
  "plot_attempted E info =
     (case plot info of
        None \<Rightarrow> False
      | Some p \<Rightarrow>
          p \<noteq> [] \<and> fields_plot (cfg_translator E)
          \<and> \<not> (auto_detect_language (cfg_translator E)
                \<and> should_skip_translation (is_chinese E) (is_japanese E) p
                      (target_language (cfg_translator E))))"

text \<open>
  A movie with one performer and no archived title, and the state after the provider
  without a name has translated its title.
\<close>

definition sample_movie :: "pystr option \<Rightarrow> pystr option \<Rightarrow> movie_info" where
  "sample_movie t p =
     \<lparr>title = t, plot = p, actress = Some [lit ''Hana''], ori_title = None,
      ori_title_break = None, title_break = None, ori_plot = None\<rparr>"

definition unnamed_world :: world where
  "unnamed_world = initial_world
     \<lparr>client_log := [(sample_provider [] ''gpt-4o'', ClientTrans (lit ''Hello''))],
      chat_sent := [client_request (lit ''konnichiwa'') (sample_provider [] ''gpt-4o'')
                      [lit ''Hana''] (lit ''zh_CN'')]\<rparr>"

section \<open>The sample environment\<close>

lemma sample_env_simps [simp]:
  "cfg_translator (sample_env cfg chat http) = cfg"
  "openai_importable (sample_env cfg chat http)"
  "openai_client (sample_env cfg chat http) = (\<lambda>p. None)"
  "chat_completions_create (sample_env cfg chat http) = chat"
  "requests_get (sample_env cfg chat http) = http"
  "repr_exn (sample_env cfg chat http) = sample_repr"
  "repr_container (sample_env cfg chat http) = (\<lambda>v. lit ''<container>'')"
  "is_chinese (sample_env cfg chat http) = is_chinese_han"
  "is_japanese (sample_env cfg chat http) = is_japanese_kana"
  by (simp_all add: sample_env_def)

section \<open>Properties of the language-skip heuristic\<close>

lemma py_strip_empty_iff: "py_strip s = [] \<longleftrightarrow> (\<forall>c \<in> set s. py_isspace c)"
proof
  assume "py_strip s = []"
  then have all: "\<forall>c \<in> set (dropWhile py_isspace s). py_isspace c"
    by (simp add: py_strip_def dropWhile_eq_Nil_conv)
  have "dropWhile py_isspace s = []"
  proof (cases "dropWhile py_isspace s")
    case Nil
    then show ?thesis .
  next
    case (Cons c cs)
    then have "\<not> py_isspace c"
      using hd_dropWhile [of py_isspace s] by simp
    with all Cons show ?thesis by simp
  qed
  then show "\<forall>c \<in> set s. py_isspace c"
    by (simp add: dropWhile_eq_Nil_conv)
next
  assume "\<forall>c \<in> set s. py_isspace c"
  then have "dropWhile py_isspace s = []"
    by (simp add: dropWhile_eq_Nil_conv)
  then have "py_strip s = rev (dropWhile py_isspace (rev []))"
    unfolding py_strip_def by (rule arg_cong)
  then show "py_strip s = []"
    by simp
qed

lemma lit_zh_CN: "startswith (lit ''zh_CN'') (lit ''zh'')"
  by (simp add: startswith_def lit_def)

lemma lit_en: "\<not> startswith (lit ''en'') (lit ''zh'')"
  by (simp add: startswith_def lit_def)

text \<open>
  C5. \<^verbatim>\<open>should_skip_translation\<close> returns true for every empty or whitespace-only text.
  For a text that is not, it returns true exactly when the target language code starts
  with \<^verbatim>\<open>zh\<close> and the text is classified as Chinese and not as Japanese; so for a target
  language outside the Chinese family it returns false. The four sample calls of the
  specification follow, the two about Chinese and Japanese text for every pair of
  classifiers that classifies the two sample texts as the specification expects.
\<close>

theorem should_skip_translation_cases:
  "((\<forall>c \<in> set text. py_isspace c) \<longrightarrow> should_skip_translation ic ij text target_lang)
   \<and> (\<not> (\<forall>c \<in> set text. py_isspace c) \<and> startswith target_lang (lit ''zh'') \<longrightarrow>
        should_skip_translation ic ij text target_lang = (ic text \<and> \<not> ij text))
   \<and> (\<not> (\<forall>c \<in> set text. py_isspace c) \<and> \<not> startswith target_lang (lit ''zh'') \<longrightarrow>
        \<not> should_skip_translation ic ij text target_lang)
   \<and> (ic [0x4F60, 0x597D] \<and> \<not> ij [0x4F60, 0x597D] \<longrightarrow>
        should_skip_translation ic ij [0x4F60, 0x597D] (lit ''zh_CN''))
   \<and> (ij [0x3053, 0x3093, 0x306B, 0x3061, 0x306F] \<longrightarrow>
        \<not> should_skip_translation ic ij [0x3053, 0x3093, 0x306B, 0x3061, 0x306F] (lit ''zh_CN''))
   \<and> should_skip_translation ic ij [] (lit ''zh_CN'')
   \<and> \<not> should_skip_translation ic ij (lit ''hello'') (lit ''en'')"
proof -
  have blank: "(text = [] \<or> length (py_strip text) = 0) = (\<forall>c \<in> set text. py_isspace c)"
    by (auto simp: py_strip_empty_iff)
  have nihao: "\<not> (\<forall>c \<in> set [0x4F60, 0x597D :: nat]. py_isspace c)"
    by (simp add: py_isspace_def)
  have konnichiwa: "py_strip [0x3053, 0x3093, 0x306B, 0x3061, 0x306F] \<noteq> []"
    by (simp add: py_strip_empty_iff py_isspace_def)
  have hello: "py_strip (lit ''hello'') \<noteq> []"
    by (simp add: py_strip_empty_iff py_isspace_def lit_def)
  show ?thesis
    using nihao konnichiwa hello lit_zh_CN lit_en
    unfolding should_skip_translation_def blank
    by (auto simp: py_strip_empty_iff lit_def)
qed

theorem should_skip_translation_cases_witness:
  "should_skip_translation is_chinese_han is_japanese_kana [0x20, 0x3000] (lit ''zh_TW'')
   \<and> should_skip_translation is_chinese_han is_japanese_kana [0x4F60, 0x597D] (lit ''zh_CN'')
   \<and> \<not> should_skip_translation is_chinese_han is_japanese_kana
         [0x3053, 0x3093, 0x306B, 0x3061, 0x306F] (lit ''zh_CN'')
   \<and> \<not> should_skip_translation is_chinese_han is_japanese_kana [0x4F60, 0x597D] (lit ''en'')"
proof -
  have ws: "\<forall>c \<in> set [0x20, 0x3000 :: nat]. py_isspace c"
    by (simp add: py_isspace_def)
  have han: "is_chinese_han [0x4F60, 0x597D] \<and> \<not> is_japanese_kana [0x4F60, 0x597D]"
    by (simp add: is_chinese_han_def is_japanese_kana_def)
  have kana: "is_japanese_kana [0x3053, 0x3093, 0x306B, 0x3061, 0x306F]"
    by (simp add: is_japanese_kana_def)
  have nws: "\<not> (\<forall>c \<in> set [0x4F60, 0x597D :: nat]. py_isspace c)"
    by (simp add: py_isspace_def)
  show ?thesis
    using ws han kana nws lit_en
      should_skip_translation_cases [of "[0x20, 0x3000]" is_chinese_han is_japanese_kana "lit ''zh_TW''"]
      should_skip_translation_cases [of "[0x4F60, 0x597D]" is_chinese_han is_japanese_kana "lit ''en''"]
    by blast
qed

section \<open>Properties of entity protection\<close>














lemma flat_simps [simp]:
  "flat [] = []"
  "flat (Inl c # st) = c # flat st"
  "flat (Inr e # st) = actress_token e @ flat st"
  "flat (st @ st') = flat st @ flat st'"
  "flat (map Inl s) = s"
  by (simp_all add: flat_def) (induction s, simp_all)

lemma raw_simps [simp]:
  "raw [] = []"
  "raw (Inl c # st) = c # raw st"
  "raw (Inr e # st) = e @ raw st"
  "raw (map Inl s) = s"
  by (simp_all add: raw_def) (induction s, simp_all)



















section \<open>Properties of the fallback client\<close>

lemma randint_bounds: "60 \<le> randint E k 60 90 \<and> randint E k 60 90 \<le> 90"
proof -
  have "random_source E k mod 31 < 31" by simp
  then show ?thesis unfolding randint_def by simp
qed

lemmas effects = logger_warning_def time_sleep_def http_get_def chat_create_def grow_wait_def

lemma google_trans_retry_post:
  assumes "google_trans_retry E url r w = Some y"
  shows "retry_post E url r w y"
proof (rule google_trans_retry.raw_induct [where P = retry_post, OF _ assms], goal_cases)
  case (1 retry E url r w y)
  show ?case
  proof (cases "status_code r = 429")
    case False
    with 1(2) have "y = (Inr r, w)" by simp
    with False show ?thesis
      unfolding retry_post_def by (intro exI [of _ 0]) simp
  next
    case True
    define w1 where "w1 = time_sleep (google_trans_wait w)
                   (logger_warning (Throttled (status_code r) (reason r) (google_trans_wait w)) w)"
    obtain got w2 where http: "http_get E url w1 = (got, w2)"
      by (cases "http_get E url w1")
    have got: "got = requests_get E (length (http_sent w)) url"
      and w2: "http_sent w2 = http_sent w @ [url]" "rand_drawn w2 = rand_drawn w"
        "google_trans_wait w2 = google_trans_wait w" "client_log w2 = client_log w"
        "chat_sent w2 = chat_sent w" "google_calls w2 = google_calls w"
      using http by (auto simp: w1_def effects)
    have body: "(case got of Inl e \<Rightarrow> Some (Inl e, w2)
                 | Inr r' \<Rightarrow> retry E url r' (if status_code r' = 429 then grow_wait E w2 else w2)) = Some y"
      using 1(2) True http unfolding w1_def by simp
    show ?thesis
    proof (cases got)
      case (Inl e)
      with body have "y = (Inl e, w2)"
        by simp
      then show ?thesis
        using Inl True got w2 unfolding retry_post_def by (intro exI [of _ 1]) simp
    next
      case (Inr r')
      define w3 where "w3 = (if status_code r' = 429 then grow_wait E w2 else w2)"
      from body Inr have "retry E url r' w3 = Some y"
        unfolding w3_def by simp
      then have post: "retry_post E url r' w3 y" by (rule 1(1))
      note Inr = Inr [unfolded got]
      show ?thesis
      proof (cases "status_code r' = 429")
        case False
        with post have "y = (Inr r', w2)" unfolding retry_post_def w3_def by auto
        then show ?thesis
          using Inr True False w2 unfolding retry_post_def by (intro exI [of _ 1]) simp
      next
        case r429: True
        have w3: "http_sent w3 = http_sent w @ [url]" "rand_drawn w3 = Suc (rand_drawn w)"
          "google_trans_wait w3 = google_trans_wait w + randint E (rand_drawn w) 60 90"
          "client_log w3 = client_log w" "chat_sent w3 = chat_sent w" "google_calls w3 = google_calls w"
          using r429 w2 by (simp_all add: w3_def grow_wait_def)
        from post r429 obtain m' where p:
          "http_sent (snd y) = http_sent w3 @ replicate m' url"
          "rand_drawn (snd y) = rand_drawn w3 + (m' - 1)"
          "0 < m'"
          "google_trans_wait w3 + 60 * int (m' - 1) \<le> google_trans_wait (snd y)"
          "google_trans_wait (snd y) \<le> google_trans_wait w3 + 90 * int (m' - 1)"
          "\<forall>i < m' - 1. \<exists>r'. requests_get E (length (http_sent w3) + i) url = Inr r' \<and> status_code r' = 429"
          "case fst y of Inl e \<Rightarrow> 0 < m' \<and> requests_get E (length (http_sent w3) + (m' - 1)) url = Inl e
             | Inr r' \<Rightarrow> status_code r' \<noteq> 429
                 \<and> (0 < m' \<longrightarrow> requests_get E (length (http_sent w3) + (m' - 1)) url = Inr r')"
          "client_log (snd y) = client_log w3" "chat_sent (snd y) = chat_sent w3"
          "google_calls (snd y) = google_calls w3"
          unfolding retry_post_def by blast
        have hs: "http_sent (snd y) = http_sent w @ replicate (Suc m') url"
          using p(1) w3(1) by (simp add: replicate_append_same)
        have rd: "rand_drawn (snd y) = rand_drawn w + (Suc m' - 1)"
          using p(2,3) w3(2) by simp
        have thr: "\<forall>i < Suc m' - 1. \<exists>r'. requests_get E (length (http_sent w) + i) url = Inr r' \<and> status_code r' = 429"
        proof (intro allI impI)
          fix i assume i: "i < Suc m' - 1"
          show "\<exists>r'. requests_get E (length (http_sent w) + i) url = Inr r' \<and> status_code r' = 429"
          proof (cases i)
            case 0
            with Inr r429 show ?thesis by simp
          next
            case (Suc j)
            with i have "j < m' - 1" by simp
            with p(6) w3(1) Suc show ?thesis by simp
          qed
        qed
        have last: "case fst y of Inl e \<Rightarrow> 0 < Suc m' \<and> requests_get E (length (http_sent w) + (Suc m' - 1)) url = Inl e
             | Inr r' \<Rightarrow> status_code r' \<noteq> 429
                 \<and> (0 < Suc m' \<longrightarrow> requests_get E (length (http_sent w) + (Suc m' - 1)) url = Inr r')"
          using p(7) p(3) w3(1) by (cases m') (auto split: sum.splits)
        have wlo: "google_trans_wait w + 60 * int (Suc m' - 1) \<le> google_trans_wait (snd y)"
          using p(4) p(3) w3(3) randint_bounds [of E "rand_drawn w"] by (cases m') simp_all
        have whi: "google_trans_wait (snd y) \<le> google_trans_wait w + 90 * int (Suc m' - 1)"
          using p(5) p(3) w3(3) randint_bounds [of E "rand_drawn w"] by (cases m') simp_all
        have frame: "client_log (snd y) = client_log w" "chat_sent (snd y) = chat_sent w"
          "google_calls (snd y) = google_calls w"
          using p(8,9,10) w3 by simp_all
        show ?thesis
          unfolding retry_post_def
          using hs rd True thr last wlo whi frame by (intro exI [of _ "Suc m'"]) simp
      qed
    qed
  qed
qed


lemma google_trans_retry_done:
  "status_code r \<noteq> 429 \<Longrightarrow> google_trans_retry E url r w = Some (Inr r, w)"
  by (subst google_trans_retry.simps) simp

lemma after_retry_get_fields [simp]:
  "http_sent (after_retry_get url r w) = http_sent w @ [url]"
  "google_trans_wait (after_retry_get url r w) = google_trans_wait w"
  "rand_drawn (after_retry_get url r w) = rand_drawn w"
  "client_log (after_retry_get url r w) = client_log w"
  "chat_sent (after_retry_get url r w) = chat_sent w"
  "google_calls (after_retry_get url r w) = google_calls w"
  by (simp_all add: after_retry_get_def effects)

lemma grow_wait_fields [simp]:
  "http_sent (grow_wait E w) = http_sent w"
  "google_trans_wait (grow_wait E w) = google_trans_wait w + randint E (rand_drawn w) 60 90"
  "rand_drawn (grow_wait E w) = Suc (rand_drawn w)"
  "client_log (grow_wait E w) = client_log w"
  "chat_sent (grow_wait E w) = chat_sent w"
  "google_calls (grow_wait E w) = google_calls w"
  by (simp_all add: effects)

lemma google_trans_retry_raise:
  "status_code r = 429 \<Longrightarrow> requests_get E (length (http_sent w)) url = Inl e \<Longrightarrow>
   google_trans_retry E url r w = Some (Inl e, after_retry_get url r w)"
  by (subst google_trans_retry.simps) (simp add: after_retry_get_def effects)

lemma google_trans_retry_again:
  "status_code r = 429 \<Longrightarrow> requests_get E (length (http_sent w)) url = Inr r' \<Longrightarrow>
   google_trans_retry E url r w =
     google_trans_retry E url r'
       (if status_code r' = 429 then grow_wait E (after_retry_get url r w) else after_retry_get url r w)"
  by (subst google_trans_retry.simps) (simp add: after_retry_get_def effects)

lemma google_trans_retry_returns:
  assumes "length (http_sent w) \<le> m" and "unthrottled E url m"
  shows "\<exists>y. google_trans_retry E url r w = Some y"
  using assms(1)
proof (induction "m - length (http_sent w)" arbitrary: w r)
  case 0
  then have m: "m = length (http_sent w)" by simp
  show ?case
  proof (cases "status_code r = 429")
    case False
    then show ?thesis by (simp add: google_trans_retry_done)
  next
    case True
    show ?thesis
    proof (cases "requests_get E (length (http_sent w)) url")
      case (Inl e)
      with True show ?thesis by (simp add: google_trans_retry_raise)
    next
      case (Inr r')
      with assms(2) m have "status_code r' \<noteq> 429" by (simp add: unthrottled_def)
      with True Inr show ?thesis
        by (simp add: google_trans_retry_again google_trans_retry_done)
    qed
  qed
next
  case (Suc d)
  show ?case
  proof (cases "status_code r = 429")
    case False
    then show ?thesis by (simp add: google_trans_retry_done)
  next
    case True
    show ?thesis
    proof (cases "requests_get E (length (http_sent w)) url")
      case (Inl e)
      with True show ?thesis by (simp add: google_trans_retry_raise)
    next
      case (Inr r')
      show ?thesis
      proof (cases "status_code r' = 429")
        case False
        with True Inr show ?thesis
          by (simp add: google_trans_retry_again google_trans_retry_done)
      next
        case r429: True
        define w3 where "w3 = grow_wait E (after_retry_get url r w)"
        have "d = m - length (http_sent w3)" "length (http_sent w3) \<le> m"
          using Suc.hyps(2) Suc.prems by (simp_all add: w3_def)
        then have "\<exists>y. google_trans_retry E url r' w3 = Some y"
          by (rule Suc.hyps(1))
        with True Inr r429 show ?thesis
          by (simp add: google_trans_retry_again w3_def)
      qed
    qed
  qed
qed

lemma google_trans_returns:
  assumes "answers_eventually E"
  shows "\<exists>y. google_trans E texts to w = Some y"
proof -
  define url where "url = google_url texts to"
  define w0 where "w0 = w\<lparr>google_calls := google_calls w @ [(texts, to)]\<rparr>"
  obtain got w1 where http: "http_get E url w0 = (got, w1)"
    by (cases "http_get E url w0")
  show ?thesis
  proof (cases got)
    case (Inl e)
    with http show ?thesis
      by (simp add: google_trans_def url_def w0_def)
  next
    case (Inr r0)
    from assms obtain m where "length (http_sent w1) \<le> m" "unthrottled E url m"
      unfolding answers_eventually_def by blast
    then obtain y where "google_trans_retry E url r0 w1 = Some y"
      using google_trans_retry_returns by blast
    with http Inr show ?thesis
      by (cases y) (auto simp: google_trans_def url_def w0_def split: sum.splits option.splits)
  qed
qed

lemma google_trans_post:
  assumes "google_trans E texts to w = Some (returned, w')"
  shows "\<exists>n. 0 < n
     \<and> http_sent w' = http_sent w @ replicate n (google_url texts to)
     \<and> google_calls w' = google_calls w @ [(texts, to)]
     \<and> rand_drawn w' = rand_drawn w + (n - 2)
     \<and> google_trans_wait w + 60 * int (n - 2) \<le> google_trans_wait w'
     \<and> google_trans_wait w' \<le> google_trans_wait w + 90 * int (n - 2)
     \<and> (\<forall>i < n - 1. \<exists>r. requests_get E (length (http_sent w) + i) (google_url texts to) = Inr r
            \<and> status_code r = 429)
     \<and> client_log w' = client_log w \<and> chat_sent w' = chat_sent w"
proof -
  define url where "url = google_url texts to"
  define w0 where "w0 = w\<lparr>google_calls := google_calls w @ [(texts, to)]\<rparr>"
  obtain got w1 where http: "http_get E url w0 = (got, w1)"
    by (cases "http_get E url w0")
  have got: "got = requests_get E (length (http_sent w)) url"
    and w1: "http_sent w1 = http_sent w @ [url]" "google_calls w1 = google_calls w @ [(texts, to)]"
      "rand_drawn w1 = rand_drawn w" "google_trans_wait w1 = google_trans_wait w"
      "client_log w1 = client_log w" "chat_sent w1 = chat_sent w"
    using http by (auto simp: w0_def effects)
  show ?thesis
  proof (cases got)
    case (Inl e)
    with assms http have "w' = w1"
      by (simp add: google_trans_def url_def w0_def)
    then show ?thesis
      using w1 unfolding url_def by (intro exI [of _ 1]) simp
  next
    case (Inr r0)
    with assms http obtain y where y: "google_trans_retry E url r0 w1 = Some y"
      and fields: "http_sent w' = http_sent (snd y)" "google_calls w' = google_calls (snd y)"
        "rand_drawn w' = rand_drawn (snd y)" "google_trans_wait w' = google_trans_wait (snd y)"
        "client_log w' = client_log (snd y)" "chat_sent w' = chat_sent (snd y)"
      by (auto simp: google_trans_def url_def w0_def effects split: sum.splits option.splits if_splits)
    from google_trans_retry_post [OF y] obtain m where p:
      "http_sent (snd y) = http_sent w1 @ replicate m url"
      "rand_drawn (snd y) = rand_drawn w1 + (m - 1)"
      "status_code r0 \<noteq> 429 \<longrightarrow> y = (Inr r0, w1)"
      "google_trans_wait w1 + 60 * int (m - 1) \<le> google_trans_wait (snd y)"
      "google_trans_wait (snd y) \<le> google_trans_wait w1 + 90 * int (m - 1)"
      "\<forall>i < m - 1. \<exists>r'. requests_get E (length (http_sent w1) + i) url = Inr r' \<and> status_code r' = 429"
      "client_log (snd y) = client_log w1" "chat_sent (snd y) = chat_sent w1"
      "google_calls (snd y) = google_calls w1"
      unfolding retry_post_def by blast
    have r0: "0 < m \<Longrightarrow> status_code r0 = 429"
      using p(1,3) by auto
    have thr: "\<forall>i < Suc m - 1. \<exists>r. requests_get E (length (http_sent w) + i) url = Inr r \<and> status_code r = 429"
    proof (intro allI impI)
      fix i assume i: "i < Suc m - 1"
      show "\<exists>r. requests_get E (length (http_sent w) + i) url = Inr r \<and> status_code r = 429"
      proof (cases i)
        case 0
        with i r0 Inr got show ?thesis by simp
      next
        case (Suc j)
        with i have "j < m - 1" by simp
        with p(6) w1(1) Suc show ?thesis by simp
      qed
    qed
    have "http_sent w' = http_sent w @ replicate (Suc m) url"
      using fields(1) p(1) w1(1) by (simp add: replicate_append_same)
    moreover have "google_calls w' = google_calls w @ [(texts, to)]"
      using fields(2) p(9) w1(2) by simp
    moreover have "rand_drawn w' = rand_drawn w + (Suc m - 2)"
      using fields(3) p(2) w1(3) by simp
    moreover have "google_trans_wait w + 60 * int (Suc m - 2) \<le> google_trans_wait w'"
      using fields(4) p(4) w1(4) by simp
    moreover have "google_trans_wait w' \<le> google_trans_wait w + 90 * int (Suc m - 2)"
      using fields(4) p(5) w1(4) by simp
    moreover have "client_log w' = client_log w" "chat_sent w' = chat_sent w"
      using fields(5,6) p(7,8) w1(5,6) by simp_all
    ultimately show ?thesis
      using thr unfolding url_def by (intro exI [of _ "Suc m"]) simp
  qed
qed

lemma google_trans_wait_mono:
  assumes "google_trans E texts to w = Some (returned, w')"
  shows "google_trans_wait w \<le> google_trans_wait w'"
proof -
  from google_trans_post [OF assms] obtain n where
    "google_trans_wait w + 60 * int (n - 2) \<le> google_trans_wait w'" by blast
  moreover have "0 \<le> 60 * int (n - 2)" by simp
  ultimately show ?thesis by linarith
qed

lemma google_trans_run_wait_mono:
  "google_trans_run E calls w = Some (rs, w') \<Longrightarrow> google_trans_wait w \<le> google_trans_wait w'"
proof (induction calls arbitrary: w rs)
  case Nil
  then show ?case by simp
next
  case (Cons c calls)
  obtain texts to where c: "c = (texts, to)" by (cases c)
  from Cons.prems c obtain returned w1 rest where
    one: "google_trans E texts to w = Some (returned, w1)"
    and more: "google_trans_run E calls w1 = Some (rest, w')"
    by (auto split: option.splits)
  from one have "google_trans_wait w \<le> google_trans_wait w1"
    by (rule google_trans_wait_mono)
  moreover from more have "google_trans_wait w1 \<le> google_trans_wait w'"
    by (rule Cons.IH)
  ultimately show ?case by simp
qed

lemma google_trans_three_throttled:
  assumes r1: "requests_get E (length (http_sent w)) (google_url texts to) = Inr r1"
    and r2: "requests_get E (length (http_sent w) + 1) (google_url texts to) = Inr r2"
    and r3: "requests_get E (length (http_sent w) + 2) (google_url texts to) = Inr r3"
    and r4: "requests_get E (length (http_sent w) + 3) (google_url texts to) = Inr r4"
    and t: "status_code r1 = 429" "status_code r2 = 429" "status_code r3 = 429"
    and ok: "status_code r4 = 200" "json_body r4 = Some result"
  shows "\<exists>w'. google_trans E texts to w = Some (Inr result, w')
           \<and> google_trans_wait w + 120 \<le> google_trans_wait w'
           \<and> google_trans_wait w' \<le> google_trans_wait w + 180"
proof -
  define url where "url = google_url texts to"
  define w0 where "w0 = w\<lparr>google_calls := google_calls w @ [(texts, to)], http_sent := http_sent w @ [url]\<rparr>"
  define w1 where "w1 = grow_wait E (after_retry_get url r1 w0)"
  define w2 where "w2 = grow_wait E (after_retry_get url r2 w1)"
  define w3 where "w3 = after_retry_get url r3 w2"
  have len: "length (http_sent w0) = length (http_sent w) + 1"
    "length (http_sent w1) = length (http_sent w) + 2"
    "length (http_sent w2) = length (http_sent w) + 3"
    by (simp_all add: w0_def w1_def w2_def)
  have g2: "requests_get E (length (http_sent w0)) url = Inr r2"
    using r2 len(1) by (simp add: url_def)
  have g3: "requests_get E (length (http_sent w1)) url = Inr r3"
    using r3 len(2) by (simp add: url_def)
  have g4: "requests_get E (length (http_sent w2)) url = Inr r4"
    using r4 len(3) by (simp add: url_def)
  have "google_trans_retry E url r1 w0 = google_trans_retry E url r2 w1"
    using google_trans_retry_again [OF t(1) g2] t(2) by (simp add: w1_def)
  also have "\<dots> = google_trans_retry E url r3 w2"
    using google_trans_retry_again [OF t(2) g3] t(3) by (simp add: w2_def)
  also have "\<dots> = google_trans_retry E url r4 w3"
    using google_trans_retry_again [OF t(3) g4] ok(1) by (simp add: w3_def)
  also have "\<dots> = Some (Inr r4, w3)"
    using ok by (simp add: google_trans_retry_done)
  finally have retry: "google_trans_retry E url r1 w0 = Some (Inr r4, w3)" .
  have "http_get E url (w\<lparr>google_calls := google_calls w @ [(texts, to)]\<rparr>) = (Inr r1, w0)"
    using r1 by (simp add: http_get_def w0_def url_def)
  then have run: "google_trans E texts to w = Some (Inr result, time_sleep 4 w3)"
    using retry ok by (simp add: google_trans_def url_def [symmetric])
  have "google_trans_wait (time_sleep 4 w3)
        = google_trans_wait w + randint E (rand_drawn w) 60 90 + randint E (Suc (rand_drawn w)) 60 90"
    by (simp add: w3_def w2_def w1_def w0_def time_sleep_def)
  with randint_bounds [of E "rand_drawn w"] randint_bounds [of E "Suc (rand_drawn w)"] run
  show ?thesis by auto
qed

text \<open>
  C4. The wait of the fallback client starts at 60. A call of \<^verbatim>\<open>google_trans\<close> that
  returns after \<open>n\<close> requests found the first \<open>n - 1\<close> of them throttled and raised the
  wait \<open>n - 2\<close> times, each time by between 60 and 90: once for every retry that was
  itself throttled, and never otherwise. So the wait never decreases, over one call and
  over any sequence of calls. When the endpoint answers 429 three times and then 200
  with a JSON body, the call returns that body and the wait is strictly larger than
  before.
\<close>

theorem google_trans_wait_monotone:
  "google_trans_wait initial_world = 60
   \<and> (google_trans E texts to w = Some (returned, w') \<longrightarrow>
        (\<exists>n. 0 < n
           \<and> http_sent w' = http_sent w @ replicate n (google_url texts to)
           \<and> rand_drawn w' = rand_drawn w + (n - 2)
           \<and> google_trans_wait w + 60 * int (n - 2) \<le> google_trans_wait w'
           \<and> google_trans_wait w' \<le> google_trans_wait w + 90 * int (n - 2)
           \<and> (\<forall>i < n - 1. \<exists>r. requests_get E (length (http_sent w) + i) (google_url texts to) = Inr r
                  \<and> status_code r = 429)))
   \<and> (google_trans_run E calls w = Some (rs, w'') \<longrightarrow> google_trans_wait w \<le> google_trans_wait w'')
   \<and> (requests_get E (length (http_sent w)) (google_url texts to) = Inr r1
        \<and> requests_get E (length (http_sent w) + 1) (google_url texts to) = Inr r2
        \<and> requests_get E (length (http_sent w) + 2) (google_url texts to) = Inr r3
        \<and> requests_get E (length (http_sent w) + 3) (google_url texts to) = Inr r4
        \<and> status_code r1 = 429 \<and> status_code r2 = 429 \<and> status_code r3 = 429
        \<and> status_code r4 = 200 \<and> json_body r4 = Some result \<longrightarrow>
        (\<exists>w3. google_trans E texts to w = Some (Inr result, w3)
             \<and> google_trans_wait w < google_trans_wait w3))"
proof -
  have "google_trans_wait initial_world = 60"
    by (simp add: initial_world_def)
  moreover have "google_trans E texts to w = Some (returned, w') \<longrightarrow>
        (\<exists>n. 0 < n
           \<and> http_sent w' = http_sent w @ replicate n (google_url texts to)
           \<and> rand_drawn w' = rand_drawn w + (n - 2)
           \<and> google_trans_wait w + 60 * int (n - 2) \<le> google_trans_wait w'
           \<and> google_trans_wait w' \<le> google_trans_wait w + 90 * int (n - 2)
           \<and> (\<forall>i < n - 1. \<exists>r. requests_get E (length (http_sent w) + i) (google_url texts to) = Inr r
                  \<and> status_code r = 429))"
    using google_trans_post [of E texts to w returned w'] by blast
  moreover have "google_trans_run E calls w = Some (rs, w'') \<longrightarrow> google_trans_wait w \<le> google_trans_wait w''"
    using google_trans_run_wait_mono by blast
  moreover have "requests_get E (length (http_sent w)) (google_url texts to) = Inr r1
        \<and> requests_get E (length (http_sent w) + 1) (google_url texts to) = Inr r2
        \<and> requests_get E (length (http_sent w) + 2) (google_url texts to) = Inr r3
        \<and> requests_get E (length (http_sent w) + 3) (google_url texts to) = Inr r4
        \<and> status_code r1 = 429 \<and> status_code r2 = 429 \<and> status_code r3 = 429
        \<and> status_code r4 = 200 \<and> json_body r4 = Some result \<longrightarrow>
        (\<exists>w3. google_trans E texts to w = Some (Inr result, w3)
             \<and> google_trans_wait w < google_trans_wait w3)"
  proof
    assume h: "requests_get E (length (http_sent w)) (google_url texts to) = Inr r1
        \<and> requests_get E (length (http_sent w) + 1) (google_url texts to) = Inr r2
        \<and> requests_get E (length (http_sent w) + 2) (google_url texts to) = Inr r3
        \<and> requests_get E (length (http_sent w) + 3) (google_url texts to) = Inr r4
        \<and> status_code r1 = 429 \<and> status_code r2 = 429 \<and> status_code r3 = 429
        \<and> status_code r4 = 200 \<and> json_body r4 = Some result"
    then obtain w3 where "google_trans E texts to w = Some (Inr result, w3)"
      "google_trans_wait w + 120 \<le> google_trans_wait w3"
      using google_trans_three_throttled [of E w texts to r1 r2 r3 r4 result] by blast
    then show "\<exists>w3. google_trans E texts to w = Some (Inr result, w3)
             \<and> google_trans_wait w < google_trans_wait w3"
      by (intro exI [of _ w3]) simp
  qed
  ultimately show ?thesis by blast
qed

theorem google_trans_wait_monotone_witness:
  "\<exists>w3. google_trans (sample_env (sample_cfg []) (\<lambda>k q. Inr []) three_then_ok)
            [0x3053, 0x3093, 0x306B, 0x3061, 0x306F] (lit ''zh_CN'') initial_world
          = Some (Inr (one_sentence [0x3053, 0x3093, 0x306B, 0x3061, 0x306F] [0x4F60, 0x597D]), w3)
        \<and> google_trans_run (sample_env (sample_cfg []) (\<lambda>k q. Inr []) three_then_ok)
            [([0x3053, 0x3093, 0x306B, 0x3061, 0x306F], lit ''zh_CN'')] initial_world
          = Some ([Inr (one_sentence [0x3053, 0x3093, 0x306B, 0x3061, 0x306F] [0x4F60, 0x597D])], w3)
        \<and> 60 < google_trans_wait w3"
proof -
  define E where "E = sample_env (sample_cfg []) (\<lambda>k q. Inr []) three_then_ok"
  define t :: pystr where "t = [0x3053, 0x3093, 0x306B, 0x3061, 0x306F]"
  define res where "res = one_sentence [0x3053, 0x3093, 0x306B, 0x3061, 0x306F] [0x4F60, 0x597D]"
  have get: "requests_get E = three_then_ok"
    by (simp add: E_def sample_env_def)
  have h: "requests_get E (length (http_sent initial_world)) (google_url t (lit ''zh_CN'')) = Inr throttled_response
        \<and> requests_get E (length (http_sent initial_world) + 1) (google_url t (lit ''zh_CN'')) = Inr throttled_response
        \<and> requests_get E (length (http_sent initial_world) + 2) (google_url t (lit ''zh_CN'')) = Inr throttled_response
        \<and> requests_get E (length (http_sent initial_world) + 3) (google_url t (lit ''zh_CN'')) = Inr (ok_response res)
        \<and> status_code throttled_response = 429 \<and> status_code throttled_response = 429
        \<and> status_code throttled_response = 429
        \<and> status_code (ok_response res) = 200 \<and> json_body (ok_response res) = Some res"
    by (simp add: get three_then_ok_def initial_world_def throttled_response_def ok_response_def res_def)
  have "\<exists>w3. google_trans E t (lit ''zh_CN'') initial_world = Some (Inr res, w3)
             \<and> google_trans_wait initial_world < google_trans_wait w3"
    using h google_trans_wait_monotone [of E t "lit ''zh_CN''" initial_world "Inr res" initial_world
        "[]" "[]" initial_world throttled_response throttled_response throttled_response
        "ok_response res" res]
    by (elim conjE) (rule mp, assumption, intro conjI, assumption+)
  then obtain w3 where run: "google_trans E t (lit ''zh_CN'') initial_world = Some (Inr res, w3)"
    and gt: "google_trans_wait initial_world < google_trans_wait w3"
    by (elim exE conjE)
  have seq: "google_trans_run E [(t, lit ''zh_CN'')] initial_world = Some ([Inr res], w3)"
    using run by simp
  have "google_trans_wait initial_world = 60 \<and> google_trans_wait initial_world \<le> google_trans_wait w3"
    using run seq google_trans_wait_monotone [of E t "lit ''zh_CN''" initial_world "Inr res" w3
        "[(t, lit ''zh_CN'')]" "[Inr res]" w3 throttled_response throttled_response throttled_response
        "ok_response res" res]
    by (elim conjE) (intro conjI, assumption, rule mp, assumption+)
  with run seq gt show ?thesis
    unfolding E_def t_def res_def by (intro exI [of _ w3]) simp
qed

section \<open>Properties of the compatible-provider client\<close>

lemma client_unavailable:
  "\<not> openai_importable E \<Longrightarrow>
   translate_with_openai_compatible E texts p given target_lang w
   = (ClientError (- 10) (lit ''openai package not installed''), w)"
  by (simp add: translate_with_openai_compatible_def)

lemma client_not_built:
  "openai_importable E \<Longrightarrow> openai_client E p = Some e \<Longrightarrow>
   translate_with_openai_compatible E texts p given target_lang w
   = (ClientError (- 11) (repr_exn E e), w)"
  by (simp add: translate_with_openai_compatible_def Let_def)

lemma client_called:
  assumes "openai_importable E" and "openai_client E p = None"
  shows "translate_with_openai_compatible E texts p given target_lang w
   = ((case chat_completions_create E (length (chat_sent w))
             (client_request texts p (names_of given) target_lang) of
         Inl e \<Rightarrow> ClientError (- 11) (repr_exn E e)
       | Inr choices \<Rightarrow>
           if empty_payload choices then ClientError (- 12) (lit ''Empty response from API'')
           else ClientTrans (restore_names (py_strip (the (hd choices))) (names_of given))),
      w\<lparr>chat_sent := chat_sent w @ [client_request texts p (names_of given) target_lang]\<rparr>)"
  using assms
  by (auto simp: translate_with_openai_compatible_def Let_def chat_create_def client_request_def
      names_of_def split: sum.splits list.splits option.splits)





section \<open>Properties of the provider chain\<close>

lemma client_frame:
  assumes "translate_with_openai_compatible E texts p given target_lang w = (res, w')"
  shows "client_log w' = client_log w \<and> google_calls w' = google_calls w \<and> http_sent w' = http_sent w
     \<and> google_trans_wait w' = google_trans_wait w \<and> warnings w' = warnings w
     \<and> rand_drawn w' = rand_drawn w \<and> slept w' = slept w
     \<and> (chat_sent w' = chat_sent w
         \<or> chat_sent w' = chat_sent w @ [client_request texts p (names_of given) target_lang])"
proof (cases "openai_importable E")
  case False
  with assms show ?thesis by (simp add: client_unavailable)
next
  case True
  show ?thesis
  proof (cases "openai_client E p")
    case None
    with True assms show ?thesis by (auto simp: client_called)
  next
    case (Some e)
    with True assms show ?thesis by (simp add: client_not_built)
  qed
qed

lemma try_providers_post:
  "loop_post texts names target_lang ps errors w (try_providers E texts names target_lang ps errors w)"
proof (induction ps arbitrary: errors w)
  case Nil
  show ?case
    unfolding loop_post_def by (intro exI [of _ "[]"]) simp
next
  case (Cons p ps)
  obtain res w1 where call: "translate_with_openai_compatible E texts p (Some names) target_lang w = (res, w1)"
    by (cases "translate_with_openai_compatible E texts p (Some names) target_lang w")
  define w2 where "w2 = w1\<lparr>client_log := client_log w1 @ [(p, res)]\<rparr>"
  from client_frame [OF call] have f:
    "client_log w2 = client_log w @ [(p, res)]" "google_calls w2 = google_calls w"
    "http_sent w2 = http_sent w" "google_trans_wait w2 = google_trans_wait w" "warnings w2 = warnings w"
    "chat_sent w2 = chat_sent w \<or> chat_sent w2 = chat_sent w @ [client_request texts p names target_lang]"
    by (simp_all add: w2_def names_of_def)
  from f(6) obtain s1 where s1: "chat_sent w2 = chat_sent w @ s1" "length s1 \<le> 1"
    "\<forall>q \<in> set s1. user_content q = protect_names texts names"
    by (auto simp: client_request_def)
  show ?case
  proof (cases res)
    case (ClientTrans t)
    with call have "try_providers E texts names target_lang (p # ps) errors w
        = (Inl (Translated t (provider_label p) None), w2)"
      by (simp add: w2_def)
    then show ?thesis
      unfolding loop_post_def using f s1 ClientTrans
      by (intro exI [of _ "[(p, res)]"] exI [of _ s1]) simp
  next
    case (ClientError code error_msg)
    define errors' where "errors' = errors @ [provider_label p @ lit '': '' @ error_msg]"
    define y where "y = try_providers E texts names target_lang ps errors' w2"
    from ClientError call have run: "try_providers E texts names target_lang (p # ps) errors w = y"
      by (simp add: w2_def y_def errors'_def)
    have "loop_post texts names target_lang ps errors' w2 y"
      unfolding y_def by (rule Cons.IH)
    then obtain new sent where p:
      "client_log (snd y) = client_log w2 @ new" "prefix (map fst new) ps"
      "chat_sent (snd y) = chat_sent w2 @ sent"
      "\<forall>q \<in> set sent. user_content q = protect_names texts names"
      "length sent \<le> length new"
      "google_calls (snd y) = google_calls w2" "http_sent (snd y) = http_sent w2"
      "google_trans_wait (snd y) = google_trans_wait w2" "warnings (snd y) = warnings w2"
      "case fst y of
              Inl out \<Rightarrow> new \<noteq> [] \<and> list_all (\<lambda>x. is_client_error (snd x)) (butlast new)
                 \<and> (\<exists>t. snd (last new) = ClientTrans t
                        \<and> out = Translated t (provider_label (fst (last new))) None)
            | Inr errs \<Rightarrow> map fst new = ps \<and> list_all (\<lambda>x. is_client_error (snd x)) new
                 \<and> errs = errors' @ map error_entry new"
      unfolding loop_post_def by blast
    have last: "case fst y of
              Inl out \<Rightarrow> (p, res) # new \<noteq> []
                 \<and> list_all (\<lambda>x. is_client_error (snd x)) (butlast ((p, res) # new))
                 \<and> (\<exists>t. snd (last ((p, res) # new)) = ClientTrans t
                        \<and> out = Translated t (provider_label (fst (last ((p, res) # new)))) None)
            | Inr errs \<Rightarrow> map fst ((p, res) # new) = p # ps
                 \<and> list_all (\<lambda>x. is_client_error (snd x)) ((p, res) # new)
                 \<and> errs = errors @ map error_entry ((p, res) # new)"
      using p(10) ClientError by (auto simp: errors'_def split: sum.splits)
    show ?thesis
      unfolding run loop_post_def
      using p(1-9) f s1 last
      by (intro exI [of _ "(p, res) # new"] exI [of _ "s1 @ sent"]) auto
  qed
qed

lemma google_trans_retry_warnings:
  assumes "google_trans_retry E url r w = Some y"
  shows "prefix (warnings w) (warnings (snd y))"
proof (rule google_trans_retry.raw_induct [where P = "\<lambda>E url r w y. prefix (warnings w) (warnings (snd y))",
      OF _ assms], goal_cases)
  case (1 retry E url r w y)
  show ?case
  proof (cases "status_code r = 429")
    case False
    with 1(2) show ?thesis by auto
  next
    case True
    define w1 where "w1 = time_sleep (google_trans_wait w)
                   (logger_warning (Throttled (status_code r) (reason r) (google_trans_wait w)) w)"
    obtain got w2 where http: "http_get E url w1 = (got, w2)"
      by (cases "http_get E url w1")
    have w2: "prefix (warnings w) (warnings w2)"
      using http by (auto simp: w1_def effects)
    have body: "(case got of Inl e \<Rightarrow> Some (Inl e, w2)
                 | Inr r' \<Rightarrow> retry E url r' (if status_code r' = 429 then grow_wait E w2 else w2)) = Some y"
      using 1(2) True http unfolding w1_def by simp
    show ?thesis
    proof (cases got)
      case (Inl e)
      with body w2 show ?thesis by auto
    next
      case (Inr r')
      define w3 where "w3 = (if status_code r' = 429 then grow_wait E w2 else w2)"
      from body Inr have "retry E url r' w3 = Some y"
        unfolding w3_def by simp
      then have "prefix (warnings w3) (warnings (snd y))" by (rule 1(1))
      moreover have "warnings w3 = warnings w2"
        by (simp add: w3_def grow_wait_def)
      ultimately show ?thesis
        using w2 by (metis prefix_order.order_trans)
    qed
  qed
qed

lemma google_trans_warnings:
  assumes "google_trans E texts to w = Some (returned, w')"
  shows "prefix (warnings w) (warnings w')"
proof -
  define url where "url = google_url texts to"
  define w0 where "w0 = w\<lparr>google_calls := google_calls w @ [(texts, to)]\<rparr>"
  obtain got w1 where http: "http_get E url w0 = (got, w1)"
    by (cases "http_get E url w0")
  have w1: "warnings w1 = warnings w"
    using http by (auto simp: w0_def effects)
  show ?thesis
  proof (cases got)
    case (Inl e)
    with assms http w1 show ?thesis
      by (auto simp: google_trans_def url_def w0_def)
  next
    case (Inr r0)
    with assms http obtain y where y: "google_trans_retry E url r0 w1 = Some y"
      and w': "warnings w' = warnings (snd y)"
      by (auto simp: google_trans_def url_def w0_def effects split: sum.splits option.splits if_splits)
    from google_trans_retry_warnings [OF y] w1 w' show ?thesis by simp
  qed
qed

lemma translate_with_providers_unfold:
  "translate_with_providers E texts given target_lang w =
     (if providers (cfg_translator E) \<noteq> [] then
        (case try_providers E texts (names_of given) target_lang (providers (cfg_translator E)) [] w of
           (Inl result, w1) \<Rightarrow> Some (result, w1)
         | (Inr errors, w1) \<Rightarrow>
             (case google_trans E texts target_lang (logger_warning (AllProvidersFailed errors) w1) of
                None \<Rightarrow> None
              | Some (returned, w2) \<Rightarrow> Some (fallback_outcome E returned, w2)))
      else
        (case google_trans E texts target_lang w of
           None \<Rightarrow> None
         | Some (returned, w2) \<Rightarrow> Some (fallback_outcome E returned, w2)))"
  by (simp add: translate_with_providers_def names_of_def Let_def split: prod.splits sum.splits option.splits)

lemma logger_warning_fields [simp]:
  "warnings (logger_warning line w) = warnings w @ [line]"
  "client_log (logger_warning line w) = client_log w"
  "chat_sent (logger_warning line w) = chat_sent w"
  "google_calls (logger_warning line w) = google_calls w"
  "http_sent (logger_warning line w) = http_sent w"
  "google_trans_wait (logger_warning line w) = google_trans_wait w"
  "rand_drawn (logger_warning line w) = rand_drawn w"
  by (simp_all add: logger_warning_def)

lemma translate_with_providers_returns:
  assumes "answers_eventually E"
  shows "\<exists>y. translate_with_providers E texts given target_lang w = Some y"
proof -
  have g: "\<And>w0. \<exists>y. google_trans E texts target_lang w0 = Some y"
    using assms by (rule google_trans_returns)
  show ?thesis
  proof (cases "providers (cfg_translator E) = []")
    case True
    from g [of w] obtain y where "google_trans E texts target_lang w = Some y" by blast
    with True show ?thesis
      by (cases y) (simp add: translate_with_providers_unfold)
  next
    case False
    obtain res w1 where loop:
      "try_providers E texts (names_of given) target_lang (providers (cfg_translator E)) [] w = (res, w1)"
      by (cases "try_providers E texts (names_of given) target_lang (providers (cfg_translator E)) [] w")
    show ?thesis
    proof (cases res)
      case (Inl out)
      with False loop show ?thesis by (simp add: translate_with_providers_unfold)
    next
      case (Inr errs)
      from g [of "logger_warning (AllProvidersFailed errs) w1"] obtain y
        where "google_trans E texts target_lang (logger_warning (AllProvidersFailed errs) w1) = Some y"
        by blast
      with False loop Inr show ?thesis
        by (cases y) (simp add: translate_with_providers_unfold)
    qed
  qed
qed

text \<open>What a returning run of the chain establishes, in the three ways it can end.\<close>

lemma chain_cases:
  assumes run: "translate_with_providers E texts given target_lang w = Some (out, w')"
  obtains (success) new sent t where
      "providers (cfg_translator E) \<noteq> []"
      "try_providers E texts (names_of given) target_lang (providers (cfg_translator E)) [] w = (Inl out, w')"
      "client_log w' = client_log w @ new" "prefix (map fst new) (providers (cfg_translator E))"
      "new \<noteq> []" "list_all (\<lambda>x. is_client_error (snd x)) (butlast new)"
      "snd (last new) = ClientTrans t" "out = Translated t (provider_label (fst (last new))) None"
      "chat_sent w' = chat_sent w @ sent"
      "\<forall>q \<in> set sent. user_content q = protect_names texts (names_of given)"
      "google_calls w' = google_calls w" "http_sent w' = http_sent w" "warnings w' = warnings w"
      "google_trans_wait w' = google_trans_wait w"
  | (exhausted) new sent w1 w0 returned n more where
      "try_providers E texts (names_of given) target_lang (providers (cfg_translator E)) [] w
         = (Inr (map error_entry new), w1)"
      "w0 = (if providers (cfg_translator E) \<noteq> []
             then logger_warning (AllProvidersFailed (map error_entry new)) w1 else w)"
      "google_trans E texts target_lang w0 = Some (returned, w')"
      "out = fallback_outcome E returned"
      "client_log w' = client_log w @ new" "map fst new = providers (cfg_translator E)"
      "list_all (\<lambda>x. is_client_error (snd x)) new"
      "chat_sent w' = chat_sent w @ sent"
      "\<forall>q \<in> set sent. user_content q = protect_names texts (names_of given)"
      "google_calls w' = google_calls w @ [(texts, target_lang)]" "0 < n"
      "http_sent w' = http_sent w @ replicate n (google_url texts target_lang)"
      "warnings w' = warnings w0 @ more"
      "google_trans_wait w \<le> google_trans_wait w'"
proof -
  define ps where "ps = providers (cfg_translator E)"
  define names where "names = names_of given"
  obtain res w1 where loop: "try_providers E texts names target_lang ps [] w = (res, w1)"
    by (cases "try_providers E texts names target_lang ps [] w")
  from try_providers_post [of texts names target_lang ps "[]" w E] loop
  obtain new sent where p:
      "client_log w1 = client_log w @ new" "prefix (map fst new) ps"
      "chat_sent w1 = chat_sent w @ sent"
      "\<forall>q \<in> set sent. user_content q = protect_names texts names"
      "google_calls w1 = google_calls w" "http_sent w1 = http_sent w"
      "google_trans_wait w1 = google_trans_wait w" "warnings w1 = warnings w"
      "case res of
              Inl out \<Rightarrow> new \<noteq> [] \<and> list_all (\<lambda>x. is_client_error (snd x)) (butlast new)
                 \<and> (\<exists>t. snd (last new) = ClientTrans t
                        \<and> out = Translated t (provider_label (fst (last new))) None)
            | Inr errs \<Rightarrow> map fst new = ps \<and> list_all (\<lambda>x. is_client_error (snd x)) new
                 \<and> errs = [] @ map error_entry new"
    unfolding loop_post_def by auto
  show ?thesis
  proof (cases "ps \<noteq> [] \<and> (\<exists>o'. res = Inl o')")
    case True
    then obtain o' where o': "res = Inl o'" and ne: "ps \<noteq> []" by blast
    with run loop have eq: "out = o'" "w' = w1"
      by (simp_all add: translate_with_providers_unfold ps_def names_def)
    from p(9) o' obtain t where t: "new \<noteq> []" "list_all (\<lambda>x. is_client_error (snd x)) (butlast new)"
      "snd (last new) = ClientTrans t" "o' = Translated t (provider_label (fst (last new))) None"
      by auto
    show ?thesis
      using ne loop o' eq p(1-8) t
      by (intro success [of new t sent]) (simp_all add: ps_def names_def)
  next
    case False
    define w0 where "w0 = (if ps \<noteq> [] then logger_warning (AllProvidersFailed (map error_entry new)) w1 else w)"
    have errs: "res = Inr (map error_entry new)" "map fst new = ps"
      "list_all (\<lambda>x. is_client_error (snd x)) new"
    proof -
      show "res = Inr (map error_entry new)"
      proof (cases "ps = []")
        case True
        with loop p(2) show ?thesis by simp
      next
        case ne: False
        with False obtain errs where "res = Inr errs" by (cases res) auto
        with p(9) show ?thesis by simp
      qed
      then show "map fst new = ps" "list_all (\<lambda>x. is_client_error (snd x)) new"
        using p(9) by simp_all
    qed
    have w1_empty: "ps = [] \<Longrightarrow> w1 = w"
      using loop by simp
    from run loop errs(1) obtain returned where g: "google_trans E texts target_lang w0 = Some (returned, w')"
      and out: "out = fallback_outcome E returned"
      by (auto simp: translate_with_providers_unfold ps_def [symmetric] names_def [symmetric] w0_def
          split: option.splits if_splits)
    have w0: "client_log w0 = client_log w1" "chat_sent w0 = chat_sent w1"
      "google_calls w0 = google_calls w1" "http_sent w0 = http_sent w1"
      "google_trans_wait w0 = google_trans_wait w1"
      using w1_empty by (auto simp: w0_def)
    from google_trans_post [OF g] obtain n where n: "0 < n"
      "http_sent w' = http_sent w0 @ replicate n (google_url texts target_lang)"
      "google_calls w' = google_calls w0 @ [(texts, target_lang)]"
      "client_log w' = client_log w0" "chat_sent w' = chat_sent w0"
      by blast
    from google_trans_warnings [OF g] obtain more where more: "warnings w' = warnings w0 @ more"
      by (auto simp: prefix_def)
    have mono: "google_trans_wait w \<le> google_trans_wait w'"
      using google_trans_wait_mono [OF g] w0(5) p(7) by simp
    show ?thesis
      using loop errs g out n more mono w0 p(1-8)
      by (intro exhausted [of new w1 w0 returned sent n more])
        (simp_all add: ps_def names_def w0_def)
  qed
qed

section \<open>Sample runs of the chain\<close>


lemma label_sample: "provider_label (sample_provider (c # cs) m) = lit (c # cs)"
  by (simp add: provider_label_def sample_provider_def lit_def)


lemma str_int_500: "str_int 500 = lit ''500''"
  by (simp add: str_int_def digits.simps lit_def)

lemma failing_loop:
  "try_providers failing_env (lit ''Hana in Tokyo'') [lit ''Hana''] (lit ''zh_CN'')
     [sample_provider ''first'' ''m1''] [] initial_world
   = (Inr [lit ''first: APIConnectionError(timeout)''],
      initial_world
        \<lparr>client_log := [(sample_provider ''first'' ''m1'',
                      ClientError (- 11) (lit ''APIConnectionError(timeout)''))],
         chat_sent := [client_request (lit ''Hana in Tokyo'') (sample_provider ''first'' ''m1'')
                      [lit ''Hana''] (lit ''zh_CN'')]\<rparr>)"
proof -
  have r: "sample_repr (APIConnectionError (lit ''timeout'')) = lit ''APIConnectionError(timeout)''"
    by (simp add: sample_repr_def lit_def)
  have e: "lit ''first'' @ lit '': '' @ lit ''APIConnectionError(timeout)''
           = lit ''first: APIConnectionError(timeout)''"
    by (simp add: lit_def)
  show ?thesis
    by (simp add: failing_env_def client_called names_of_def chat_always_def
        initial_world_def label_sample r e)
qed

lemma error_500_outcome:
  "fallback_outcome failing_env
     (Inr (JObj [(lit ''error_code'', JInt 500), (lit ''error_msg'', JStr (lit ''Internal Server Error''))]))
   = Failed (lit ''500: Internal Server Error'')"
proof -
  have k: "lit ''sentences'' \<noteq> lit ''error_code''" "lit ''sentences'' \<noteq> lit ''error_msg''"
    "lit ''error_msg'' \<noteq> lit ''error_code''"
    by (simp_all add: lit_def)
  have e: "lit ''500'' @ lit '': '' @ lit ''Internal Server Error'' = lit ''500: Internal Server Error''"
    by (simp add: lit_def)
  show ?thesis
    using k by (simp add: fallback_outcome_def fallback_result_def exn_bind_def py_str_def str_int_500 e)
qed

lemma failing_run:
  "translate_with_providers failing_env (lit ''Hana in Tokyo'') (Some [lit ''Hana'']) (lit ''zh_CN'')
     initial_world
   = Some (Failed (lit ''500: Internal Server Error''), failed_world)"
proof -
  have ps: "providers (cfg_translator failing_env) = [sample_provider ''first'' ''m1'']"
    by (simp add: failing_env_def sample_cfg_def)
  have get: "requests_get failing_env = http_always (Inr error_response)"
    by (simp add: failing_env_def)
  have g: "google_trans failing_env (lit ''Hana in Tokyo'') (lit ''zh_CN'')
             (logger_warning (AllProvidersFailed [lit ''first: APIConnectionError(timeout)''])
               (initial_world
                 \<lparr>client_log := [(sample_provider ''first'' ''m1'',
                      ClientError (- 11) (lit ''APIConnectionError(timeout)''))],
                  chat_sent := [client_request (lit ''Hana in Tokyo'') (sample_provider ''first'' ''m1'')
                      [lit ''Hana''] (lit ''zh_CN'')]\<rparr>))
           = Some (Inr (JObj [(lit ''error_code'', JInt 500),
                              (lit ''error_msg'', JStr (lit ''Internal Server Error''))]),
                   failed_world)"
    by (simp add: google_trans_def get http_always_def http_get_def error_response_def
        google_trans_retry_done time_sleep_def logger_warning_def failed_world_def initial_world_def)
  show ?thesis
    by (simp add: translate_with_providers_unfold ps names_of_def failing_loop g error_500_outcome
        del: try_providers.simps)
qed

lemma failing_env_answers: "answers_eventually failing_env"
  unfolding answers_eventually_def unthrottled_def
  by (auto simp: failing_env_def http_always_def error_response_def)

section \<open>The claims about the provider chain\<close>







text \<open>
  C9 (amended). Entity protection is not applied for the fallback: every request that
  \<^verbatim>\<open>translate_with_providers\<close> sends to the fallback endpoint has the URL built from
  the text as it was given, whatever the protected names are, while every request to
  a compatible provider carries the text with the names replaced by tokens.
\<close>

theorem fallback_gets_raw_text:
  "translate_with_providers E texts given target_lang w = Some (out, w') \<longrightarrow>
     (\<exists>sent. chat_sent w' = chat_sent w @ sent
         \<and> (\<forall>q \<in> set sent. user_content q = protect_names texts (names_of given)))
     \<and> (google_calls w' \<noteq> google_calls w \<longrightarrow>
          google_calls w' = google_calls w @ [(texts, target_lang)]
          \<and> (\<exists>n. 0 < n \<and> http_sent w' = http_sent w @ replicate n (google_url texts target_lang)))
     \<and> (google_calls w' = google_calls w \<longrightarrow> http_sent w' = http_sent w)"
proof
  assume run: "translate_with_providers E texts given target_lang w = Some (out, w')"
  from run show "(\<exists>sent. chat_sent w' = chat_sent w @ sent
         \<and> (\<forall>q \<in> set sent. user_content q = protect_names texts (names_of given)))
     \<and> (google_calls w' \<noteq> google_calls w \<longrightarrow>
          google_calls w' = google_calls w @ [(texts, target_lang)]
          \<and> (\<exists>n. 0 < n \<and> http_sent w' = http_sent w @ replicate n (google_url texts target_lang)))
     \<and> (google_calls w' = google_calls w \<longrightarrow> http_sent w' = http_sent w)"
  proof (cases rule: chain_cases)
    case (success new sent t)
    then show ?thesis by auto
  next
    case (exhausted new sent w1 w0 returned n more)
    then show ?thesis by auto
  qed
qed

theorem fallback_gets_raw_text_witness:
  "translate_with_providers failing_env (lit ''Hana in Tokyo'') (Some [lit ''Hana'']) (lit ''zh_CN'')
     initial_world = Some (Failed (lit ''500: Internal Server Error''), failed_world)
   \<and> http_sent failed_world = [google_url (lit ''Hana in Tokyo'') (lit ''zh_CN'')]
   \<and> (\<exists>n. 0 < n \<and> http_sent failed_world
          = http_sent initial_world @ replicate n (google_url (lit ''Hana in Tokyo'') (lit ''zh_CN'')))"
proof -
  have "google_calls failed_world \<noteq> google_calls initial_world"
    by (simp add: failed_world_def initial_world_def)
  then have "\<exists>n. 0 < n \<and> http_sent failed_world
          = http_sent initial_world @ replicate n (google_url (lit ''Hana in Tokyo'') (lit ''zh_CN''))"
    using failing_run fallback_gets_raw_text [of failing_env "lit ''Hana in Tokyo''" "Some [lit ''Hana'']"
        "lit ''zh_CN''" initial_world "Failed (lit ''500: Internal Server Error'')" failed_world]
    by blast
  then show ?thesis
    using failing_run by (simp add: failed_world_def initial_world_def)
qed

text \<open>
  The claim as stated fails: the compatible provider is sent the text with the name
  replaced by its token, the fallback endpoint the text as it was given.
\<close>

theorem fallback_gets_raw_text_counterexample:
  "map_option (map user_content \<circ> chat_sent \<circ> snd)
      (translate_with_providers failing_env (lit ''Hana in Tokyo'') (Some [lit ''Hana''])
        (lit ''zh_CN'') initial_world) = Some [lit ''[ACTRESS:Hana] in Tokyo'']
   \<and> map_option (http_sent \<circ> snd)
      (translate_with_providers failing_env (lit ''Hana in Tokyo'') (Some [lit ''Hana''])
        (lit ''zh_CN'') initial_world) = Some [google_url (lit ''Hana in Tokyo'') (lit ''zh_CN'')]
   \<and> google_url (lit ''Hana in Tokyo'') (lit ''zh_CN'')
      \<noteq> google_url (lit ''[ACTRESS:Hana] in Tokyo'') (lit ''zh_CN'')"
proof -
  have p: "str_replace (lit ''Hana in Tokyo'') (lit ''Hana'') (actress_token (lit ''Hana''))
      = lit ''[ACTRESS:Hana] in Tokyo''"
    by code_simp
  have "lit ''Hana in Tokyo'' \<noteq> lit ''[ACTRESS:Hana] in Tokyo''"
    by (simp add: lit_def)
  then have "google_url (lit ''Hana in Tokyo'') (lit ''zh_CN'')
      \<noteq> google_url (lit ''[ACTRESS:Hana] in Tokyo'') (lit ''zh_CN'')"
    by (simp add: google_url_def)
  then show ?thesis
    unfolding failing_run by (simp add: failed_world_def initial_world_def client_request_def p)
qed

section \<open>Properties of the interpretation of the fallback's reply\<close>














section \<open>Properties of the orchestrator\<close>

lemma title_not_attempted:
  "\<not> title_attempted E info \<Longrightarrow> translate_title E info w = Some (info, w)"
  by (auto simp: title_attempted_def translate_title_def Let_def split: option.splits)

lemma plot_not_attempted:
  "\<not> plot_attempted E info \<Longrightarrow> translate_plot E info w = Some (info, w)"
  by (auto simp: plot_attempted_def translate_plot_def Let_def split: option.splits)

lemma title_attempted_run:
  assumes "title_attempted E info"
  shows "translate_title E info w =
     (case translate_with_providers E (the (title info)) (actress info)
             (target_language (cfg_translator E)) w of
        None \<Rightarrow> None
      | Some (Translated translated provider_name breaks, w') \<Rightarrow>
          Some ((case breaks of
                   None \<Rightarrow> info\<lparr>ori_title := title info, title := Some translated\<rparr>
                 | Some (orig_break, trans_break) \<Rightarrow>
                     info\<lparr>ori_title := title info, title := Some translated,
                          ori_title_break := Some orig_break,
                          title_break := Some trans_break\<rparr>), w')
      | Some (Failed error_msg, w') \<Rightarrow>
          Some (info,
                if title_mandatory (cfg_translator E)
                then logger_warning (TitleFailed error_msg) w'
                else w'))"
  using assms
  by (auto simp: title_attempted_def translate_title_def Let_def split: option.splits outcome.splits)

lemma plot_attempted_run:
  assumes "plot_attempted E info"
  shows "translate_plot E info w =
     (case translate_with_providers E (the (plot info)) (actress info)
             (target_language (cfg_translator E)) w of
        None \<Rightarrow> None
      | Some (Translated translated provider_name breaks, w') \<Rightarrow>
          Some (info\<lparr>ori_plot := plot info, plot := Some translated\<rparr>, w')
      | Some (Failed error_msg, w') \<Rightarrow> Some (info, w'))"
  using assms
  by (auto simp: plot_attempted_def translate_plot_def Let_def split: option.splits outcome.splits)

lemma translate_with_providers_warnings:
  assumes "translate_with_providers E texts given target_lang w = Some (out, w')"
  shows "prefix (warnings w) (warnings w')"
  using assms
proof (cases rule: chain_cases)
  case (success new sent t)
  then show ?thesis by simp
next
  case (exhausted new sent w1 w0 returned n more)
  from try_providers_post [of texts "names_of given" target_lang "providers (cfg_translator E)" "[]" w E]
  have "warnings w1 = warnings w"
    unfolding loop_post_def exhausted(1) by auto
  then have "prefix (warnings w) (warnings w0)"
    using exhausted(2) by simp
  then show ?thesis
    using exhausted(13) by (metis prefix_order.order_trans prefixI)
qed

lemma translate_plot_keeps_title:
  assumes "translate_plot E info w = Some (info', w')"
  shows "title info' = title info \<and> ori_title info' = ori_title info
     \<and> ori_title_break info' = ori_title_break info \<and> title_break info' = title_break info
     \<and> prefix (warnings w) (warnings w')"
proof (cases "plot_attempted E info")
  case False
  with assms show ?thesis by (simp add: plot_not_attempted)
next
  case True
  with assms obtain out where
    run: "translate_with_providers E (the (plot info)) (actress info)
             (target_language (cfg_translator E)) w = Some (out, w')"
    by (auto simp: plot_attempted_run split: option.splits outcome.splits)
  from translate_with_providers_warnings [OF run] have "prefix (warnings w) (warnings w')" .
  moreover from assms True run have "title info' = title info \<and> ori_title info' = ori_title info
     \<and> ori_title_break info' = ori_title_break info \<and> title_break info' = title_break info"
    by (auto simp: plot_attempted_run split: outcome.splits)
  ultimately show ?thesis by simp
qed

lemma translate_title_archives:
  assumes "translate_title E info w = Some (info1, w1)"
  shows "(title info1 = title info \<and> ori_title info1 = ori_title info)
     \<or> (ori_title info = None \<and> ori_title info1 = title info \<and> ori_title info1 \<noteq> None)"
proof (cases "title_attempted E info")
  case False
  with assms show ?thesis by (simp add: title_not_attempted)
next
  case True
  then have t: "ori_title info = None" "title info \<noteq> None"
    by (auto simp: title_attempted_def split: option.splits)
  from assms True show ?thesis
    using t by (auto simp: title_attempted_run split: option.splits outcome.splits)
qed

lemma translate_movie_info_returns:
  assumes "answers_eventually E"
  shows "\<exists>info' w'. translate_movie_info E info w = Some (True, info', w')"
proof -
  have chain: "\<And>texts given w0. \<exists>out w1.
      translate_with_providers E texts given (target_language (cfg_translator E)) w0 = Some (out, w1)"
    using translate_with_providers_returns [OF assms] by auto
  have "\<exists>info1 w1. translate_title E info w = Some (info1, w1)"
  proof (cases "title_attempted E info")
    case False
    then show ?thesis by (simp add: title_not_attempted)
  next
    case True
    from chain [of "the (title info)" "actress info" w] obtain out w1 where
      "translate_with_providers E (the (title info)) (actress info)
             (target_language (cfg_translator E)) w = Some (out, w1)" by blast
    with True show ?thesis
      by (cases out) (simp_all add: title_attempted_run)
  qed
  then obtain info1 w1 where t: "translate_title E info w = Some (info1, w1)" by blast
  have "\<exists>info2 w2. translate_plot E info1 w1 = Some (info2, w2)"
  proof (cases "plot_attempted E info1")
    case False
    then show ?thesis by (simp add: plot_not_attempted)
  next
    case True
    from chain [of "the (plot info1)" "actress info1" w1] obtain out w2 where
      "translate_with_providers E (the (plot info1)) (actress info1)
             (target_language (cfg_translator E)) w1 = Some (out, w2)" by blast
    with True show ?thesis
      by (cases out) (simp_all add: plot_attempted_run)
  qed
  then obtain info2 w2 where "translate_plot E info1 w1 = Some (info2, w2)" by blast
  with t show ?thesis
    by (simp add: translate_movie_info_def)
qed

lemma title_failure:
  assumes att: "title_attempted E info"
    and run: "translate_with_providers E (the (title info)) (actress info)
            (target_language (cfg_translator E)) w = Some (Failed error_msg, w1)"
  defines "w1' \<equiv> (if title_mandatory (cfg_translator E)
                  then logger_warning (TitleFailed error_msg) w1 else w1)"
  shows "translate_title E info w = Some (info, w1')"
    and "translate_movie_info E info w
        = (case translate_plot E info w1' of
             None \<Rightarrow> None
           | Some (info2, w2) \<Rightarrow> Some (True, info2, w2))"
    and "translate_movie_info E info w = Some (done, info', w') \<Longrightarrow>
            done \<and> title info' = title info \<and> ori_title info' = ori_title info
            \<and> (title_mandatory (cfg_translator E) \<longrightarrow> TitleFailed error_msg \<in> set (warnings w'))"
proof -
  show t: "translate_title E info w = Some (info, w1')"
    using att run by (simp add: title_attempted_run w1'_def)
  then show m: "translate_movie_info E info w
        = (case translate_plot E info w1' of
             None \<Rightarrow> None
           | Some (info2, w2) \<Rightarrow> Some (True, info2, w2))"
    by (simp add: translate_movie_info_def)
  assume r: "translate_movie_info E info w = Some (done, info', w')"
  with m have p: "translate_plot E info w1' = Some (info', w')" and d: "done"
    by (auto split: option.splits)
  from translate_plot_keeps_title [OF p]
  have k: "title info' = title info" "ori_title info' = ori_title info"
    "prefix (warnings w1') (warnings w')" by simp_all
  have "title_mandatory (cfg_translator E) \<longrightarrow> TitleFailed error_msg \<in> set (warnings w')"
  proof
    assume "title_mandatory (cfg_translator E)"
    then have "TitleFailed error_msg \<in> set (warnings w1')"
      by (simp add: w1'_def)
    with k(3) show "TitleFailed error_msg \<in> set (warnings w')"
      by (auto simp: prefix_def)
  qed
  with d k show "done \<and> title info' = title info \<and> ori_title info' = ori_title info
            \<and> (title_mandatory (cfg_translator E) \<longrightarrow> TitleFailed error_msg \<in> set (warnings w'))"
    by simp
qed

lemma cfg_failing [simp]:
  "cfg_translator failing_env = sample_cfg [sample_provider ''first'' ''m1'']"
  "is_chinese failing_env = is_chinese_han" "is_japanese failing_env = is_japanese_kana"
  by (simp_all add: failing_env_def)

lemma cfg_unnamed [simp]:
  "cfg_translator unnamed_env = sample_cfg [sample_provider [] ''gpt-4o'']"
  "is_chinese unnamed_env = is_chinese_han" "is_japanese unnamed_env = is_japanese_kana"
  by (simp_all add: unnamed_env_def)

lemma sample_cfg_fields [simp]:
  "providers (sample_cfg ps) = ps" "fields_title (sample_cfg ps)" "fields_plot (sample_cfg ps)"
  "target_language (sample_cfg ps) = lit ''zh_CN''" "title_mandatory (sample_cfg ps)"
  "auto_detect_language (sample_cfg ps)"
  by (simp_all add: sample_cfg_def)

lemma sample_movie_fields [simp]:
  "title (sample_movie t p) = t" "plot (sample_movie t p) = p"
  "actress (sample_movie t p) = Some [lit ''Hana'']" "ori_title (sample_movie t p) = None"
  by (simp_all add: sample_movie_def)

lemma no_skip_hana:
  "\<not> should_skip_translation is_chinese_han is_japanese_kana (lit ''Hana in Tokyo'') (lit ''zh_CN'')"
  by (simp add: should_skip_translation_def py_strip_empty_iff py_isspace_def is_chinese_han_def lit_def)

lemma no_skip_konnichiwa:
  "\<not> should_skip_translation is_chinese_han is_japanese_kana (lit ''konnichiwa'') (lit ''zh_CN'')"
  by (simp add: should_skip_translation_def py_strip_empty_iff py_isspace_def is_chinese_han_def lit_def)

lemma lit_nonempty: "lit (c # cs) \<noteq> []"
  by (simp add: lit_def)

lemma unnamed_run:
  "translate_with_providers unnamed_env (lit ''konnichiwa'') (Some [lit ''Hana'']) (lit ''zh_CN'')
     initial_world
   = Some (Translated (lit ''Hello'') (lit ''gpt-4o'') None, unnamed_world)"
proof -
  have strip: "py_strip (lit ''Hello'') = lit ''Hello''"
    by (simp add: py_strip_def py_isspace_def lit_def)
  have restore: "restore_names (lit ''Hello'') [lit ''Hana''] = lit ''Hello''"
    by code_simp
  have label: "provider_label (sample_provider [] ''gpt-4o'') = lit ''gpt-4o''"
    by (simp add: provider_label_def sample_provider_def lit_def)
  have "try_providers unnamed_env (lit ''konnichiwa'') [lit ''Hana''] (lit ''zh_CN'')
      [sample_provider [] ''gpt-4o''] [] initial_world
      = (Inl (Translated (lit ''Hello'') (lit ''gpt-4o'') None), unnamed_world)"
    using restore
    by (simp add: unnamed_env_def client_called names_of_def chat_always_def strip label
        lit_nonempty unnamed_world_def initial_world_def)
  then show ?thesis
    by (simp add: translate_with_providers_unfold names_of_def del: try_providers.simps)
qed

text \<open>
  C6. When the chain fails for the title, \<^verbatim>\<open>translate_movie_info\<close> leaves the movie as
  it was, logs a warning if the title is flagged mandatory, and goes on with the plot:
  its result is that of the plot step, with \<^verbatim>\<open>True\<close> in front, and in that result the
  title and the archived title are still those of before. When the chain fails for the
  plot, the plot step returns the movie unchanged. No exception leaves the function, and
  it returns \<^verbatim>\<open>True\<close> whenever the fallback endpoint does not throttle forever.
\<close>

theorem translation_failure_keeps_field:
  "(title_attempted E info
      \<and> translate_with_providers E (the (title info)) (actress info)
            (target_language (cfg_translator E)) w = Some (Failed error_msg, w1) \<longrightarrow>
      translate_title E info w
        = Some (info, if title_mandatory (cfg_translator E)
                      then logger_warning (TitleFailed error_msg) w1 else w1)
      \<and> translate_movie_info E info w
        = (case translate_plot E info
                  (if title_mandatory (cfg_translator E)
                   then logger_warning (TitleFailed error_msg) w1 else w1) of
             None \<Rightarrow> None
           | Some (info2, w2) \<Rightarrow> Some (True, info2, w2))
      \<and> (translate_movie_info E info w = Some (done, info', w') \<longrightarrow>
            done \<and> title info' = title info \<and> ori_title info' = ori_title info
            \<and> (title_mandatory (cfg_translator E) \<longrightarrow> TitleFailed error_msg \<in> set (warnings w'))))
   \<and> (plot_attempted E info
      \<and> translate_with_providers E (the (plot info)) (actress info)
            (target_language (cfg_translator E)) w = Some (Failed error_msg, w1) \<longrightarrow>
      translate_plot E info w = Some (info, w1))
   \<and> (answers_eventually E \<longrightarrow>
        (\<exists>info2 w2. translate_movie_info E info w = Some (True, info2, w2)))"
  (is "(?H1 \<longrightarrow> ?C1 \<and> ?C2 \<and> (?R \<longrightarrow> ?C3)) \<and> (?H2 \<longrightarrow> ?D) \<and> (?H3 \<longrightarrow> ?T)")
proof (intro conjI)
  show "?H1 \<longrightarrow> ?C1 \<and> ?C2 \<and> (?R \<longrightarrow> ?C3)"
  proof
    assume h: ?H1
    then have att: "title_attempted E info"
      and run: "translate_with_providers E (the (title info)) (actress info)
            (target_language (cfg_translator E)) w = Some (Failed error_msg, w1)"
      by blast+
    have ?C1 by (rule title_failure(1) [OF att run])
    moreover have ?C2 by (rule title_failure(2) [OF att run])
    moreover have "?R \<longrightarrow> ?C3"
    proof
      assume ?R
      then show ?C3 by (rule title_failure(3) [OF att run])
    qed
    ultimately show "?C1 \<and> ?C2 \<and> (?R \<longrightarrow> ?C3)" by blast
  qed
  show "?H2 \<longrightarrow> ?D"
  proof
    assume ?H2
    then show ?D by (simp add: plot_attempted_run)
  qed
  show "?H3 \<longrightarrow> ?T"
  proof
    assume ?H3
    then show ?T by (rule translate_movie_info_returns)
  qed
qed

theorem translation_failure_keeps_field_witness:
  "translate_movie_info failing_env (sample_movie (Some (lit ''Hana in Tokyo'')) None) initial_world
     = Some (True, sample_movie (Some (lit ''Hana in Tokyo'')) None,
             logger_warning (TitleFailed (lit ''500: Internal Server Error'')) failed_world)
   \<and> translate_plot failing_env (sample_movie None (Some (lit ''Hana in Tokyo''))) initial_world
     = Some (sample_movie None (Some (lit ''Hana in Tokyo'')), failed_world)
   \<and> (\<exists>info2 w2. translate_movie_info failing_env (sample_movie (Some (lit ''Hana in Tokyo'')) None)
          initial_world = Some (True, info2, w2))"
proof -
  define m1 where "m1 = sample_movie (Some (lit ''Hana in Tokyo'')) None"
  define m2 where "m2 = sample_movie None (Some (lit ''Hana in Tokyo''))"
  define w1 where "w1 = logger_warning (TitleFailed (lit ''500: Internal Server Error'')) failed_world"
  have att1: "title_attempted failing_env m1"
    using no_skip_hana by (simp add: title_attempted_def m1_def lit_nonempty)
  have att2: "plot_attempted failing_env m2"
    using no_skip_hana by (simp add: plot_attempted_def m2_def lit_nonempty)
  have run1: "translate_with_providers failing_env (the (title m1)) (actress m1)
      (target_language (cfg_translator failing_env)) initial_world
      = Some (Failed (lit ''500: Internal Server Error''), failed_world)"
    using failing_run by (simp add: m1_def)
  have run2: "translate_with_providers failing_env (the (plot m2)) (actress m2)
      (target_language (cfg_translator failing_env)) initial_world
      = Some (Failed (lit ''500: Internal Server Error''), failed_world)"
    using failing_run by (simp add: m2_def)
  have plot1: "translate_plot failing_env m1 w1 = Some (m1, w1)"
    by (rule plot_not_attempted) (simp add: plot_attempted_def m1_def)
  have mand: "title_mandatory (cfg_translator failing_env)"
    by simp
  have a: "translate_movie_info failing_env m1 initial_world
        = (case translate_plot failing_env m1
                  (if title_mandatory (cfg_translator failing_env)
                   then logger_warning (TitleFailed (lit ''500: Internal Server Error'')) failed_world
                   else failed_world) of
             None \<Rightarrow> None
           | Some (info2, w2) \<Rightarrow> Some (True, info2, w2))"
    using att1 run1
      translation_failure_keeps_field [of failing_env m1 initial_world
        "lit ''500: Internal Server Error''" failed_world True m1 w1]
    by blast
  have b: "translate_plot failing_env m2 initial_world = Some (m2, failed_world)"
    using att2 run2
      translation_failure_keeps_field [of failing_env m2 initial_world
        "lit ''500: Internal Server Error''" failed_world True m2 w1]
    by blast
  have c: "\<exists>info2 w2. translate_movie_info failing_env m1 initial_world = Some (True, info2, w2)"
    using failing_env_answers
      translation_failure_keeps_field [of failing_env m1 initial_world
        "lit ''500: Internal Server Error''" failed_world True m1 w1]
    by blast
  have "translate_movie_info failing_env m1 initial_world = Some (True, m1, w1)"
    unfolding a using mand plot1 by (simp add: w1_def)
  with b c show ?thesis
    unfolding m1_def m2_def w1_def by blast
qed

text \<open>
  C10. With an archived original title the title step does nothing: it returns the movie
  and the state unchanged, so it calls no provider and no fallback. A title step either
  leaves title and archived title alone or, starting without an archived title,
  archives the old title, which is then set. So once a run has archived the original
  title, every later run, in whatever environment and state, returns the same title
  and the same archived title.
\<close>

theorem title_translation_idempotent:
  "(ori_title info \<noteq> None \<longrightarrow> translate_title E info w = Some (info, w))
   \<and> (translate_title E info w = Some (info1, w1) \<longrightarrow>
        (title info1 = title info \<and> ori_title info1 = ori_title info)
        \<or> (ori_title info = None \<and> ori_title info1 = title info \<and> ori_title info1 \<noteq> None))
   \<and> (ori_title info \<noteq> None \<and> translate_movie_info E info w = Some (done, info2, w2) \<longrightarrow>
        title info2 = title info \<and> ori_title info2 = ori_title info
        \<and> translate_plot E info w = Some (info2, w2))
   \<and> (translate_movie_info E info w = Some (done, info2, w2) \<and> ori_title info2 \<noteq> None
       \<and> translate_movie_info E' info2 w3 = Some (done', info3, w4) \<longrightarrow>
        title info3 = title info2 \<and> ori_title info3 = ori_title info2)"
proof -
  have skip: "\<And>E i w0. ori_title i \<noteq> None \<Longrightarrow> translate_title E i w0 = Some (i, w0)"
    by (rule title_not_attempted) (auto simp: title_attempted_def split: option.splits)
  have again: "\<And>E i w0 d i' w0'. ori_title i \<noteq> None \<Longrightarrow>
      translate_movie_info E i w0 = Some (d, i', w0') \<Longrightarrow>
      title i' = title i \<and> ori_title i' = ori_title i \<and> translate_plot E i w0 = Some (i', w0')"
  proof -
    fix E i w0 d i' w0'
    assume o: "ori_title i \<noteq> None" and r: "translate_movie_info E i w0 = Some (d, i', w0')"
    from r skip [OF o, of E w0] have p: "translate_plot E i w0 = Some (i', w0')"
      by (auto simp: translate_movie_info_def split: option.splits)
    with translate_plot_keeps_title [OF p]
    show "title i' = title i \<and> ori_title i' = ori_title i \<and> translate_plot E i w0 = Some (i', w0')"
      by simp
  qed
  show ?thesis
    using skip [of info E w] translate_title_archives [of E info w info1 w1]
      again [of info E w "done" info2 w2] again [of info2 E' w3 done' info3 w4]
    by blast
qed

theorem title_translation_idempotent_witness:
  "translate_movie_info unnamed_env (sample_movie (Some (lit ''konnichiwa'')) None) initial_world
     = Some (True,
             (sample_movie (Some (lit ''konnichiwa'')) None)
               \<lparr>ori_title := Some (lit ''konnichiwa''), title := Some (lit ''Hello'')\<rparr>,
             unnamed_world)
   \<and> translate_movie_info unnamed_env
        ((sample_movie (Some (lit ''konnichiwa'')) None)
           \<lparr>ori_title := Some (lit ''konnichiwa''), title := Some (lit ''Hello'')\<rparr>)
        unnamed_world
     = Some (True,
             (sample_movie (Some (lit ''konnichiwa'')) None)
               \<lparr>ori_title := Some (lit ''konnichiwa''), title := Some (lit ''Hello'')\<rparr>,
             unnamed_world)"
proof -
  define m0 where "m0 = sample_movie (Some (lit ''konnichiwa'')) None"
  define m1 where "m1 = m0\<lparr>ori_title := Some (lit ''konnichiwa''), title := Some (lit ''Hello'')\<rparr>"
  have att: "title_attempted unnamed_env m0"
    using no_skip_konnichiwa by (simp add: title_attempted_def m0_def lit_nonempty)
  have run: "translate_with_providers unnamed_env (the (title m0)) (actress m0)
      (target_language (cfg_translator unnamed_env)) initial_world
      = Some (Translated (lit ''Hello'') (lit ''gpt-4o'') None, unnamed_world)"
    using unnamed_run by (simp add: m0_def)
  have t0: "translate_title unnamed_env m0 initial_world = Some (m1, unnamed_world)"
    unfolding title_attempted_run [OF att] run by (simp add: m1_def m0_def)
  have p1: "translate_plot unnamed_env m1 unnamed_world = Some (m1, unnamed_world)"
    by (rule plot_not_attempted) (simp add: plot_attempted_def m1_def m0_def)
  have first: "translate_movie_info unnamed_env m0 initial_world = Some (True, m1, unnamed_world)"
    using t0 p1 by (simp add: translate_movie_info_def)
  have archived: "ori_title m1 \<noteq> None"
    by (simp add: m1_def)
  note inst = title_translation_idempotent [of m1 unnamed_env unnamed_world m1 unnamed_world
      True m1 unnamed_world unnamed_env unnamed_world True m1 unnamed_world]
  have t1: "translate_title unnamed_env m1 unnamed_world = Some (m1, unnamed_world)"
    using archived inst by blast
  have second: "translate_movie_info unnamed_env m1 unnamed_world = Some (True, m1, unnamed_world)"
    using t1 p1 by (simp add: translate_movie_info_def)
  have "title m1 = title m1 \<and> ori_title m1 = ori_title m1"
    using first second archived
      title_translation_idempotent [of m0 unnamed_env initial_world m1 unnamed_world
        True m1 unnamed_world unnamed_env unnamed_world True m1 unnamed_world]
    by blast
  with first second show ?thesis
    unfolding m1_def m0_def by blast
qed

end
